theory Spec2Isabelle
  imports Main "HOL-Library.Multiset"
begin

section \<open>The DOM nodes the script works on\<close>

text \<open>
  \<^verbatim>\<open>script.js\<close> reads four things of a DOM node: its \<^verbatim>\<open>nodeType\<close>, its
  \<^verbatim>\<open>childNodes\<close>, and, of an element, the attributes, the \<^verbatim>\<open>classList\<close>, the
  \<^verbatim>\<open>tagName\<close> and the \<^verbatim>\<open>textContent\<close>. An element is modelled with exactly these
  parts. The class list is kept apart from the other attributes, as the script reaches it
  only through \<^verbatim>\<open>classList\<close> and class selectors. Text and comment nodes carry their
  data and have no children. A document node (\<^verbatim>\<open>nodeType\<close> 9) is the one kind of
  non-element node that has children; it is what \<^verbatim>\<open>DOMParser\<close> returns and what the
  preview frame holds. The remaining kinds of node (a doctype, a processing instruction)
  are leaves that are not elements, which is all the script can tell of a comment too.

  Strings are lists of 8-bit characters; the text handled here is taken to be ASCII.
\<close>

datatype dom_node =
    Element string "(string \<times> string) list" "string list" "dom_node list"
  | Text string
  | Comment string
  | Document "dom_node list"

fun nodeType :: "dom_node \<Rightarrow> nat" where
  "nodeType (Element t as cl cs) = 1"
| "nodeType (Text d) = 3"
| "nodeType (Comment d) = 8"
| "nodeType (Document cs) = 9"

fun childNodes :: "dom_node \<Rightarrow> dom_node list" where
  "childNodes (Element t as cl cs) = cs"
| "childNodes (Text d) = []"
| "childNodes (Comment d) = []"
| "childNodes (Document cs) = cs"

fun tagName :: "dom_node \<Rightarrow> string" where
  "tagName (Element t as cl cs) = t"
| "tagName n = []"

fun attributes :: "dom_node \<Rightarrow> (string \<times> string) list" where
  "attributes (Element t as cl cs) = as"
| "attributes n = []"

fun classList :: "dom_node \<Rightarrow> string list" where
  "classList (Element t as cl cs) = cl"
| "classList n = []"

text \<open>
  \<^verbatim>\<open>getAttribute\<close> answers \<^verbatim>\<open>null\<close> (here \<open>None\<close>) for a missing attribute;
  \<^verbatim>\<open>setAttribute\<close> overwrites the value of an attribute that is there and appends a
  new one otherwise.
\<close>

definition getAttribute :: "(string \<times> string) list \<Rightarrow> string \<Rightarrow> string option" where
  "getAttribute as k = map_of as k"

fun setAttribute :: "(string \<times> string) list \<Rightarrow> string \<Rightarrow> string \<Rightarrow> (string \<times> string) list" where
  "setAttribute [] k v = [(k, v)]"
| "setAttribute ((k', v') # as) k v =
     (if k' = k then (k, v) # as else (k', v') # setAttribute as k v)"

definition dataNodeId :: string where
  "dataNodeId = ''data-node-id''"

subsection \<open>String operations of the platform\<close>

text \<open>
  The template literal \<^verbatim>\<open>`node-${nodeIdCounter++}`\<close> prints the counter in decimal.
  The counter is a natural number here: a JavaScript number counts exactly up to
  \<open>2 ^ 53\<close>, far beyond the size of any document.
\<close>

definition digitChar :: "nat \<Rightarrow> char" where
  "digitChar d = ''0123456789'' ! d"

fun toString :: "nat \<Rightarrow> string" where
  "toString n = (if n < 10 then [digitChar n] else toString (n div 10) @ [digitChar (n mod 10)])"

declare toString.simps [simp del]

definition nodeIdOf :: "nat \<Rightarrow> string" where
  "nodeIdOf k = ''node-'' @ toString k"

text \<open>\<^verbatim>\<open>String.prototype.toLowerCase\<close>, on ASCII letters.\<close>

definition lowerChar :: "char \<Rightarrow> char" where
  "lowerChar c =
     (case map_of (zip ''ABCDEFGHIJKLMNOPQRSTUVWXYZ'' ''abcdefghijklmnopqrstuvwxyz'') c of
        None \<Rightarrow> c | Some l \<Rightarrow> l)"

definition toLowerCase :: "string \<Rightarrow> string" where
  "toLowerCase s = map lowerChar s"

text \<open>
  \<^verbatim>\<open>String.prototype.trim\<close> removes white space and line terminators from both ends:
  in ASCII these are TAB, LF, VT, FF, CR and the space.
\<close>

definition isWhiteSpace :: "char \<Rightarrow> bool" where
  "isWhiteSpace c = (c \<in> set [CHR 0x09, CHR 0x0A, CHR 0x0B, CHR 0x0C, CHR 0x0D, CHR 0x20])"

definition trim :: "string \<Rightarrow> string" where
  "trim s = rev (dropWhile isWhiteSpace (rev (dropWhile isWhiteSpace s)))"

text \<open>
  \<^verbatim>\<open>textContent\<close> of an element is the concatenation, in tree order, of the data of
  all text nodes below it; comments contribute nothing.
\<close>

fun descendantText :: "dom_node \<Rightarrow> string"
  and descendantTextList :: "dom_node list \<Rightarrow> string" where
  "descendantText (Element t as cl cs) = descendantTextList cs"
| "descendantText (Text d) = d"
| "descendantText (Comment d) = []"
| "descendantText (Document cs) = descendantTextList cs"
| "descendantTextList [] = []"
| "descendantTextList (n # ns) = descendantText n @ descendantTextList ns"

definition textContent :: "dom_node \<Rightarrow> string" where
  "textContent n = descendantTextList (childNodes n)"

section \<open>Identity tagger: \<^verbatim>\<open>assignIdsToElements\<close>\<close>

text \<open>
  The global \<^verbatim>\<open>nodeIdCounter\<close> is threaded through: the function takes the counter and
  returns the tagged node with the counter after the pass. Everything, the recursion into
  the children included, sits under the test \<^verbatim>\<open>nodeType === 1\<close>: a node of any other
  type comes back as it is, with the counter untouched.
\<close>

fun assignIdsToElements :: "dom_node \<Rightarrow> nat \<Rightarrow> dom_node \<times> nat"
  and assignIdsForEach :: "dom_node list \<Rightarrow> nat \<Rightarrow> dom_node list \<times> nat" where
  "assignIdsToElements (Element t as cl cs) c =
     (let uniqueId = nodeIdOf c;
          (cs', c') = assignIdsForEach cs (Suc c)
      in (Element t (setAttribute as dataNodeId uniqueId) cl cs', c'))"
| "assignIdsToElements (Text d) c = (Text d, c)"
| "assignIdsToElements (Comment d) c = (Comment d, c)"
| "assignIdsToElements (Document cs) c = (Document cs, c)"
| "assignIdsForEach [] c = ([], c)"
| "assignIdsForEach (n # ns) c =
     (let (n', c1) = assignIdsToElements n c;
          (ns', c2) = assignIdsForEach ns c1
      in (n' # ns', c2))"

section \<open>Tree extractor: \<^verbatim>\<open>convertToTree\<close>\<close>

datatype tree_node = TreeNode (nodeId: "string option") (name: string)
  (treeText: string) (children: "tree_node list")

text \<open>
  \<open>None\<close> is the \<^verbatim>\<open>null\<close> the function returns for a node that is not an element;
  \<open>convertChildren\<close> is the \<^verbatim>\<open>forEach\<close> loop that pushes the non-null results.
\<close>

fun convertToTree :: "dom_node \<Rightarrow> tree_node option"
  and convertChildren :: "dom_node list \<Rightarrow> tree_node list" where
  "convertToTree (Element t as cl cs) =
     Some (TreeNode (getAttribute as dataNodeId) (toLowerCase t)
             (trim (textContent (Element t as cl cs))) (convertChildren cs))"
| "convertToTree (Text d) = None"
| "convertToTree (Comment d) = None"
| "convertToTree (Document cs) = None"
| "convertChildren [] = []"
| "convertChildren (n # ns) =
     (case convertToTree n of
        None \<Rightarrow> convertChildren ns
      | Some childTree \<Rightarrow> childTree # convertChildren ns)"

section \<open>The two surfaces and the highlight coordinator\<close>

text \<open>
  The state the script keeps between events: the global counter, the document of the
  preview frame (\<^verbatim>\<open>iframe.contentDocument\<close>, a document node), and the groups of
  class \<^verbatim>\<open>node\<close> that \<^verbatim>\<open>drawTree\<close> appends to the SVG, which are what
  \<^verbatim>\<open>d3.selectAll(".node")\<close> selects. Each group has its bound datum (\<^verbatim>\<open>d.data\<close>),
  the text of its \<^verbatim>\<open>title\<close> child and the class \<^verbatim>\<open>highlighted-node\<close>, a flag here.
  Coordinates, zooming and the listeners themselves are not part of the state.
\<close>

record viz_node =
  datum :: tree_node
  title :: string
  highlighted :: bool

record ui_state =
  nodeIdCounter :: nat
  frameDoc :: dom_node
  treeViz :: "viz_node list"

datatype error = TypeError | SyntaxError

text \<open>
  The browser's HTML parser and serialiser are not code of the repository. They enter as
  parameters: what \<^verbatim>\<open>DOMParser.parseFromString(html, "text/html")\<close> returns, what
  \<^verbatim>\<open>outerHTML\<close> prints for an element, and the document a frame holds after
  \<^verbatim>\<open>open(); write(html); close()\<close>.
\<close>

record platform =
  parseFromString :: "string \<Rightarrow> dom_node"
  outerHTML :: "dom_node \<Rightarrow> string"
  documentWrite :: "string \<Rightarrow> dom_node"

subsection \<open>Drawing the tree\<close>

text \<open>
  \<^verbatim>\<open>hierarchyData.descendants()\<close> lists the nodes level by level, each level from left
  to right: a queue that starts with the root and appends the children of each node it
  takes out.
\<close>

function levelOrder :: "tree_node list \<Rightarrow> tree_node list" where
  "levelOrder [] = []"
| "levelOrder (t # ts) = t # levelOrder (ts @ children t)"
  by pat_completeness auto
termination
proof (relation "measure (size_list size)")
  show "wf (measure (size_list size))" by simp
next
  fix t :: tree_node and ts :: "tree_node list"
  show "(ts @ children t, t # ts) \<in> measure (size_list size)"
    by (cases t) simp
qed

definition tooltip :: "tree_node \<Rightarrow> string" where
  "tooltip d = (if treeText d \<noteq> [] then name d @ '' : '' @ treeText d else name d)"

definition drawTree :: "tree_node \<Rightarrow> ui_state \<Rightarrow> ui_state" where
  "drawTree rootData s =
     s\<lparr>treeViz := map (\<lambda>d. \<lparr>datum = d, title = tooltip d, highlighted = False\<rparr>)
                       (levelOrder [rootData])\<rparr>"

definition renderHTML :: "platform \<Rightarrow> string \<Rightarrow> ui_state \<Rightarrow> ui_state" where
  "renderHTML P html s = s\<lparr>frameDoc := documentWrite P html\<rparr>"

subsection \<open>Selectors and class lists\<close>

text \<open>
  \<^verbatim>\<open>classList.add\<close> appends a token that is not there yet, \<^verbatim>\<open>classList.remove\<close> takes
  the token out.
\<close>

definition classListAdd :: "string \<Rightarrow> string list \<Rightarrow> string list" where
  "classListAdd c cl = (if c \<in> set cl then cl else cl @ [c])"

definition classListRemove :: "string \<Rightarrow> string list \<Rightarrow> string list" where
  "classListRemove c cl = removeAll c cl"

fun setChildNodes :: "dom_node \<Rightarrow> dom_node list \<Rightarrow> dom_node" where
  "setChildNodes (Element t as cl cs) cs' = Element t as cl cs'"
| "setChildNodes (Document cs) cs' = Document cs'"
| "setChildNodes (Text d) cs' = Text d"
| "setChildNodes (Comment d) cs' = Comment d"

text \<open>
  \<^verbatim>\<open>querySelectorAll("." + c).forEach((el) => el.classList.remove(c))\<close> over a list of
  sibling subtrees: every element that has the class loses it.
\<close>

fun removeClass :: "string \<Rightarrow> dom_node \<Rightarrow> dom_node"
  and removeClassList :: "string \<Rightarrow> dom_node list \<Rightarrow> dom_node list" where
  "removeClass c (Element t as cl cs) =
     Element t as (if c \<in> set cl then classListRemove c cl else cl) (removeClassList c cs)"
| "removeClass c (Text d) = Text d"
| "removeClass c (Comment d) = Comment d"
| "removeClass c (Document cs) = Document (removeClassList c cs)"
| "removeClassList c [] = []"
| "removeClassList c (n # ns) = removeClass c n # removeClassList c ns"

text \<open>
  The selector text is \<^verbatim>\<open>[data-node-id='<id>']\<close> with the identifier pasted in
  unescaped. It denotes equality of the attribute with the identifier as long as the
  identifier has no quote, backslash, line break or NUL in it, which holds of every
  \<^verbatim>\<open>node-<n>\<close>. For the other identifiers the text is a different selector or none at
  all, for which \<^verbatim>\<open>querySelector\<close> raises a \<^verbatim>\<open>SyntaxError\<close>; the model answers
  \<open>SyntaxError\<close> for all of them, without the state the call had reached, and the
  theorems are about the plain ones.
\<close>

definition plainId :: "string \<Rightarrow> bool" where
  "plainId nid =
     list_all (\<lambda>c. c \<notin> set [CHR 0x27, CHR 0x5C, CHR 0x0A, CHR 0x0C, CHR 0x0D, CHR 0x00]) nid"

text \<open>The first element in document order, among the given subtrees, whose attribute
  equals the identifier.\<close>

fun firstMatch :: "string \<Rightarrow> dom_node \<Rightarrow> dom_node option"
  and firstMatchList :: "string \<Rightarrow> dom_node list \<Rightarrow> dom_node option" where
  "firstMatch nid (Element t as cl cs) =
     (if getAttribute as dataNodeId = Some nid then Some (Element t as cl cs)
      else firstMatchList nid cs)"
| "firstMatch nid (Text d) = None"
| "firstMatch nid (Comment d) = None"
| "firstMatch nid (Document cs) = firstMatchList nid cs"
| "firstMatchList nid [] = None"
| "firstMatchList nid (n # ns) =
     (case firstMatch nid n of Some el \<Rightarrow> Some el | None \<Rightarrow> firstMatchList nid ns)"

definition querySelector :: "dom_node \<Rightarrow> string \<Rightarrow> error + dom_node option" where
  "querySelector doc nid =
     (if plainId nid then Inr (firstMatchList nid (childNodes doc)) else Inl SyntaxError)"

text \<open>
  The document after \<^verbatim>\<open>el.classList\<close> has been changed by \<open>f\<close>, where \<^verbatim>\<open>el\<close> is
  that first match: the same walk, which rewrites the class list where it stops. The
  flag tells whether it stopped.
\<close>

fun onFirstMatch :: "string \<Rightarrow> (string list \<Rightarrow> string list) \<Rightarrow> dom_node \<Rightarrow> dom_node \<times> bool"
  and onFirstMatchList ::
    "string \<Rightarrow> (string list \<Rightarrow> string list) \<Rightarrow> dom_node list \<Rightarrow> dom_node list \<times> bool" where
  "onFirstMatch nid f (Element t as cl cs) =
     (if getAttribute as dataNodeId = Some nid then (Element t as (f cl) cs, True)
      else (let (cs', found) = onFirstMatchList nid f cs in (Element t as cl cs', found)))"
| "onFirstMatch nid f (Text d) = (Text d, False)"
| "onFirstMatch nid f (Comment d) = (Comment d, False)"
| "onFirstMatch nid f (Document cs) =
     (let (cs', found) = onFirstMatchList nid f cs in (Document cs', found))"
| "onFirstMatchList nid f [] = ([], False)"
| "onFirstMatchList nid f (n # ns) =
     (let (n', found) = onFirstMatch nid f n
      in if found then (n' # ns, True)
         else (let (ns', found') = onFirstMatchList nid f ns in (n # ns', found')))"

definition changeFirstMatch :: "string \<Rightarrow> (string list \<Rightarrow> string list) \<Rightarrow> dom_node \<Rightarrow> dom_node" where
  "changeFirstMatch nid f doc = setChildNodes doc (fst (onFirstMatchList nid f (childNodes doc)))"

subsection \<open>The four operations\<close>

definition resetTreeHighlights :: "ui_state \<Rightarrow> ui_state" where
  "resetTreeHighlights s = s\<lparr>treeViz := map (\<lambda>v. v\<lparr>highlighted := False\<rparr>) (treeViz s)\<rparr>"

definition resetHTMLHighlights :: "ui_state \<Rightarrow> ui_state" where
  "resetHTMLHighlights s =
     s\<lparr>frameDoc := setChildNodes (frameDoc s)
         (removeClassList ''hovered'' (removeClassList ''highlighted'' (childNodes (frameDoc s))))\<rparr>"

definition highlightTreeNode :: "string \<Rightarrow> ui_state \<Rightarrow> error + ui_state" where
  "highlightTreeNode nid s =
     (let s1 = resetTreeHighlights s;
          s2 = s1\<lparr>treeViz := map (\<lambda>v. if nodeId (datum v) = Some nid
                                         then v\<lparr>highlighted := True\<rparr> else v) (treeViz s1)\<rparr>;
          s3 = resetHTMLHighlights s2
      in case querySelector (frameDoc s3) nid of
           Inl e \<Rightarrow> Inl e
         | Inr None \<Rightarrow> Inr s3
         | Inr (Some el) \<Rightarrow>
             Inr (s3\<lparr>frameDoc := changeFirstMatch nid (classListAdd ''highlighted'') (frameDoc s3)\<rparr>))"

definition highlightHTMLSide :: "string \<Rightarrow> ui_state \<Rightarrow> error + ui_state" where
  "highlightHTMLSide nid s =
     (case querySelector (frameDoc s) nid of
        Inl e \<Rightarrow> Inl e
      | Inr None \<Rightarrow> Inr s
      | Inr (Some el) \<Rightarrow>
          Inr (s\<lparr>frameDoc := changeFirstMatch nid (classListAdd ''hovered'') (frameDoc s)\<rparr>))"

definition unhighlightHTMLSide :: "string \<Rightarrow> ui_state \<Rightarrow> error + ui_state" where
  "unhighlightHTMLSide nid s =
     (case querySelector (frameDoc s) nid of
        Inl e \<Rightarrow> Inl e
      | Inr None \<Rightarrow> Inr s
      | Inr (Some el) \<Rightarrow>
          Inr (s\<lparr>frameDoc := changeFirstMatch nid (classListRemove ''hovered'') (frameDoc s)\<rparr>))"

text \<open>A sequence of selection calls, one event after the other.\<close>

fun selectionCalls :: "string list \<Rightarrow> ui_state \<Rightarrow> error + ui_state" where
  "selectionCalls [] s = Inr s"
| "selectionCalls (nid # nids) s =
     (case highlightTreeNode nid s of Inl e \<Rightarrow> Inl e | Inr s' \<Rightarrow> selectionCalls nids s')"

section \<open>Update orchestrator: \<^verbatim>\<open>updateTree\<close>\<close>

text \<open>
  \<^verbatim>\<open>doc.documentElement\<close> is the first element child of the document, \<^verbatim>\<open>null\<close> when
  there is none; the tagger then fails on \<^verbatim>\<open>null.nodeType\<close> with a \<^verbatim>\<open>TypeError\<close>.
  \<open>taggingPass\<close> is the pair of statements that resets the counter and runs the tagger.
  The listeners that the timer attaches to the preview afterwards are not modelled.
\<close>

definition documentElement :: "dom_node \<Rightarrow> dom_node option" where
  "documentElement doc = find (\<lambda>n. nodeType n = 1) (childNodes doc)"

definition taggingPass :: "dom_node \<Rightarrow> ui_state \<Rightarrow> dom_node \<times> ui_state" where
  "taggingPass root s =
     (let (root', c) = assignIdsToElements root 0 in (root', s\<lparr>nodeIdCounter := c\<rparr>))"

definition updateTree :: "platform \<Rightarrow> string \<Rightarrow> ui_state \<Rightarrow> error + ui_state" where
  "updateTree P html s =
     (let doc = parseFromString P html
      in case documentElement doc of
           None \<Rightarrow> Inl TypeError
         | Some root \<Rightarrow>
             (let (root', s1) = taggingPass root s;
                  s2 = renderHTML P (outerHTML P root') s1
              in Inr (case convertToTree root' of
                        None \<Rightarrow> s2
                      | Some treeData \<Rightarrow> drawTree treeData s2)))"

section \<open>What the properties are stated with\<close>

subsection \<open>Elements in document order\<close>

text \<open>
  All elements of a subtree in document order (pre-order), whatever kind of node lies
  between them, and the identifier attribute of each.
\<close>

fun elementsOf :: "dom_node \<Rightarrow> dom_node list"
  and elementsOfList :: "dom_node list \<Rightarrow> dom_node list" where
  "elementsOf (Element t as cl cs) = Element t as cl cs # elementsOfList cs"
| "elementsOf (Text d) = []"
| "elementsOf (Comment d) = []"
| "elementsOf (Document cs) = elementsOfList cs"
| "elementsOfList [] = []"
| "elementsOfList (n # ns) = elementsOf n @ elementsOfList ns"

definition identifierOf :: "dom_node \<Rightarrow> string option" where
  "identifierOf e = getAttribute (attributes e) dataNodeId"

definition identifiers :: "dom_node \<Rightarrow> string option list" where
  "identifiers n = map identifierOf (elementsOf n)"

definition isTagged :: "dom_node \<Rightarrow> bool" where
  "isTagged e = (identifierOf e \<noteq> None)"

text \<open>
  An element tree is what the DOM allows below an element: elements, text and comments,
  the last two without children.
\<close>

fun domSubtree :: "dom_node \<Rightarrow> bool"
  and domSubtrees :: "dom_node list \<Rightarrow> bool" where
  "domSubtree (Element t as cl cs) = domSubtrees cs"
| "domSubtree (Text d) = True"
| "domSubtree (Comment d) = True"
| "domSubtree (Document cs) = False"
| "domSubtrees [] = True"
| "domSubtrees (n # ns) = (domSubtree n \<and> domSubtrees ns)"

definition elementTree :: "dom_node \<Rightarrow> bool" where
  "elementTree n = (nodeType n = 1 \<and> domSubtree n)"







subsection \<open>Shape of an extracted tree\<close>

fun preOrder :: "tree_node \<Rightarrow> tree_node list"
  and preOrderList :: "tree_node list \<Rightarrow> tree_node list" where
  "preOrder (TreeNode i nm tx ts) = TreeNode i nm tx ts # preOrderList ts"
| "preOrderList [] = []"
| "preOrderList (t # ts) = preOrder t @ preOrderList ts"

fun treeSize :: "tree_node \<Rightarrow> nat"
  and treeSizeList :: "tree_node list \<Rightarrow> nat" where
  "treeSize (TreeNode i nm tx ts) = Suc (treeSizeList ts)"
| "treeSizeList [] = 0"
| "treeSizeList (t # ts) = treeSize t + treeSizeList ts"

text \<open>
  A tree node mirrors an element when it has the element's identifier and lower-cased
  tag name and its children mirror, one for one and in the same order, the element
  children of the element.
\<close>

fun mirrors :: "dom_node \<Rightarrow> tree_node \<Rightarrow> bool"
  and mirrorsChildren :: "dom_node list \<Rightarrow> tree_node list \<Rightarrow> bool" where
  "mirrors (Element t as cl cs) tn =
     (nodeId tn = getAttribute as dataNodeId \<and> name tn = toLowerCase t
      \<and> mirrorsChildren cs (children tn))"
| "mirrors (Text d) tn = False"
| "mirrors (Comment d) tn = False"
| "mirrors (Document cs) tn = False"
| "mirrorsChildren [] ts = (ts = [])"
| "mirrorsChildren (n # ns) ts =
     (if nodeType n = 1
      then (case ts of [] \<Rightarrow> False | t # ts' \<Rightarrow> mirrors n t \<and> mirrorsChildren ns ts')
      else mirrorsChildren ns ts)"

subsection \<open>The numeric part of an identifier\<close>

definition digitVal :: "char \<Rightarrow> nat" where
  "digitVal c = of_char c - 48"

definition numVal :: "string \<Rightarrow> nat" where
  "numVal s = foldl (\<lambda>a c. 10 * a + digitVal c) 0 s"

definition isDigit :: "char \<Rightarrow> bool" where
  "isDigit c = (c \<in> set ''0123456789'')"

fun stripPrefix :: "string \<Rightarrow> string \<Rightarrow> string option" where
  "stripPrefix [] s = Some s"
| "stripPrefix (p # ps) [] = None"
| "stripPrefix (p # ps) (c # cs) = (if p = c then stripPrefix ps cs else None)"

definition idNumber :: "string option \<Rightarrow> nat option" where
  "idNumber i =
     (case i of
        None \<Rightarrow> None
      | Some s \<Rightarrow>
          (case stripPrefix ''node-'' s of
             None \<Rightarrow> None
           | Some ds \<Rightarrow> if ds \<noteq> [] \<and> list_all isDigit ds then Some (numVal ds) else None))"

definition numberOf :: "tree_node \<Rightarrow> nat option" where
  "numberOf t = idNumber (nodeId t)"

definition lessNum :: "nat option \<Rightarrow> nat option \<Rightarrow> bool" where
  "lessNum a b =
     (case a of None \<Rightarrow> False | Some x \<Rightarrow> (case b of None \<Rightarrow> False | Some y \<Rightarrow> x < y))"

text \<open>
  Every node has a number, smaller than the number of each of its children, and the
  numbers of the children grow from the first to the last; the same below.
\<close>

fun increasing :: "tree_node \<Rightarrow> bool"
  and increasingList :: "tree_node list \<Rightarrow> bool" where
  "increasing (TreeNode i nm tx ts) =
     (idNumber i \<noteq> None
      \<and> list_all (\<lambda>t. lessNum (idNumber i) (numberOf t)) ts
      \<and> sorted_wrt lessNum (map numberOf ts)
      \<and> increasingList ts)"
| "increasingList [] = True"
| "increasingList (t # ts) = (increasing t \<and> increasingList ts)"

text \<open>Every tree of the list has a number, and it lies in the given range.\<close>

definition numbersWithin :: "nat \<Rightarrow> nat \<Rightarrow> tree_node list \<Rightarrow> bool" where
  "numbersWithin lo hi ts = (\<forall>t \<in> set ts. \<exists>k. numberOf t = Some k \<and> lo \<le> k \<and> k < hi)"

subsection \<open>Markers on the two surfaces\<close>

text \<open>
  The preview is read as the list of its elements in document order, each with its
  identifier and class list. The selected marker is the class \<^verbatim>\<open>highlighted\<close>, the hover
  marker the class \<^verbatim>\<open>hovered\<close>; on the tree the selected marker is the flag of the group.
\<close>

definition marksOf :: "dom_node list \<Rightarrow> (string option \<times> string list) list" where
  "marksOf ns = map (\<lambda>e. (identifierOf e, classList e)) (elementsOfList ns)"

definition previewMarks :: "ui_state \<Rightarrow> (string option \<times> string list) list" where
  "previewMarks s = marksOf (childNodes (frameDoc s))"

definition selectedFlags :: "ui_state \<Rightarrow> bool list" where
  "selectedFlags s = map (\<lambda>m. ''highlighted'' \<in> set (snd m)) (previewMarks s)"

definition selectedOnPreview :: "ui_state \<Rightarrow> string option list" where
  "selectedOnPreview s = map fst (filter (\<lambda>m. ''highlighted'' \<in> set (snd m)) (previewMarks s))"

definition hoveredOnPreview :: "ui_state \<Rightarrow> string option list" where
  "hoveredOnPreview s = map fst (filter (\<lambda>m. ''hovered'' \<in> set (snd m)) (previewMarks s))"

definition selectedOnTree :: "ui_state \<Rightarrow> string option list" where
  "selectedOnTree s = map (\<lambda>v. nodeId (datum v)) (filter highlighted (treeViz s))"

text \<open>
  Which elements have a class, in document order, and which elements of the preview
  carry the hover marker.
\<close>

definition classFlags :: "string \<Rightarrow> dom_node \<Rightarrow> bool list" where
  "classFlags c n = map (\<lambda>e. c \<in> set (classList e)) (elementsOf n)"

definition hoveredFlags :: "ui_state \<Rightarrow> bool list" where
  "hoveredFlags s = map (\<lambda>m. ''hovered'' \<in> set (snd m)) (previewMarks s)"

text \<open>
  The identifiers a call can match: those bound to the drawn nodes and those of the
  elements of the preview. \<open>drawnNodes\<close> lists identifier and name of the drawn nodes.
\<close>

definition treeIdentifiers :: "ui_state \<Rightarrow> string option list" where
  "treeIdentifiers s = map (\<lambda>v. nodeId (datum v)) (treeViz s)"

definition previewIdentifiers :: "ui_state \<Rightarrow> string option list" where
  "previewIdentifiers s = map fst (previewMarks s)"

definition drawnNodes :: "ui_state \<Rightarrow> (string option \<times> string) list" where
  "drawnNodes s = map (\<lambda>v. (nodeId (datum v), name (datum v))) (treeViz s)"

text \<open>An entry of that list with both marker classes taken out.\<close>

definition clearMarks :: "(string option \<times> string list) \<Rightarrow> (string option \<times> string list)" where
  "clearMarks m = (fst m, removeAll ''hovered'' (removeAll ''highlighted'' (snd m)))"

definition clearedState :: "ui_state \<Rightarrow> ui_state" where
  "clearedState s = resetHTMLHighlights (resetTreeHighlights s)"

text \<open>
  What the first-match walk does to that list: it rewrites the class list of the first
  entry that has the identifier.
\<close>

fun flatFirst :: "string \<Rightarrow> (string list \<Rightarrow> string list)
    \<Rightarrow> (string option \<times> string list) list \<Rightarrow> (string option \<times> string list) list" where
  "flatFirst nid f [] = []"
| "flatFirst nid f (m # ms) =
     (if fst m = Some nid then (fst m, f (snd m)) # ms else m # flatFirst nid f ms)"

section \<open>Two worked inputs\<close>

text \<open>
  For the input \<^verbatim>\<open><div>A<span>B</span></div>\<close> the HTML parser supplies the
  \<^verbatim>\<open>html\<close>, \<^verbatim>\<open>head\<close> and \<^verbatim>\<open>body\<close> elements that the markup leaves out, so
  \<^verbatim>\<open>documentElement\<close> is the \<^verbatim>\<open>html\<close> element and the \<^verbatim>\<open>div\<close> is the child of the
  body. \<^verbatim>\<open>tagName\<close> is in upper case in an HTML document. \<open>exampleTagged\<close> is that
  root after tagging, \<open>exampleTaggedHtml\<close> its serialisation, \<open>exampleTree\<close> the tree
  extracted from it.
\<close>

definition exampleHtml :: string where
  "exampleHtml = ''<div>A<span>B</span></div>''"

definition exampleRoot :: dom_node where
  "exampleRoot =
     Element ''HTML'' [] []
       [Element ''HEAD'' [] [] [],
        Element ''BODY'' [] []
          [Element ''DIV'' [] [] [Text ''A'', Element ''SPAN'' [] [] [Text ''B'']]]]"

definition exampleDocument :: dom_node where
  "exampleDocument = Document [exampleRoot]"

definition exampleTagged :: dom_node where
  "exampleTagged =
     Element ''HTML'' [(''data-node-id'', ''node-0'')] []
       [Element ''HEAD'' [(''data-node-id'', ''node-1'')] [] [],
        Element ''BODY'' [(''data-node-id'', ''node-2'')] []
          [Element ''DIV'' [(''data-node-id'', ''node-3'')] []
             [Text ''A'', Element ''SPAN'' [(''data-node-id'', ''node-4'')] [] [Text ''B'']]]]"

definition exampleTaggedHtml :: string where
  "exampleTaggedHtml =
     ''<html data-node-id=\"node-0\"><head data-node-id=\"node-1\"></head>''
     @ ''<body data-node-id=\"node-2\"><div data-node-id=\"node-3\">A''
     @ ''<span data-node-id=\"node-4\">B</span></div></body></html>''"

definition exampleTree :: tree_node where
  "exampleTree =
     TreeNode (Some ''node-0'') ''html'' ''AB''
       [TreeNode (Some ''node-1'') ''head'' [] [],
        TreeNode (Some ''node-2'') ''body'' ''AB''
          [TreeNode (Some ''node-3'') ''div'' ''AB''
             [TreeNode (Some ''node-4'') ''span'' ''B'' []]]]"

text \<open>
  The second input, \<^verbatim>\<open><p class="highlighted hovered">x</p>\<close>, uses the two class
  names of the markers in its own markup.
\<close>

definition markedHtml :: string where
  "markedHtml = ''<p class=\"highlighted hovered\">x</p>''"

definition markedRoot :: dom_node where
  "markedRoot =
     Element ''HTML'' [] []
       [Element ''HEAD'' [] [] [],
        Element ''BODY'' [] [] [Element ''P'' [] [''highlighted'', ''hovered''] [Text ''x'']]]"

definition markedDocument :: dom_node where
  "markedDocument = Document [markedRoot]"

definition markedTagged :: dom_node where
  "markedTagged =
     Element ''HTML'' [(''data-node-id'', ''node-0'')] []
       [Element ''HEAD'' [(''data-node-id'', ''node-1'')] [] [],
        Element ''BODY'' [(''data-node-id'', ''node-2'')] []
          [Element ''P'' [(''data-node-id'', ''node-3'')] [''highlighted'', ''hovered'']
             [Text ''x'']]]"

definition markedTaggedHtml :: string where
  "markedTaggedHtml =
     ''<html data-node-id=\"node-0\"><head data-node-id=\"node-1\"></head>''
     @ ''<body data-node-id=\"node-2\">''
     @ ''<p class=\"highlighted hovered\" data-node-id=\"node-3\">x</p></body></html>''"

definition emptyDocument :: dom_node where
  "emptyDocument =
     Document [Element ''HTML'' [] [] [Element ''HEAD'' [] [] [], Element ''BODY'' [] [] []]]"

text \<open>
  A platform that has the values of a browser at the strings and trees above, which is
  all the examples ask of it.
\<close>

definition exampleBrowser :: platform where
  "exampleBrowser =
     \<lparr>parseFromString = (\<lambda>html. if html = exampleHtml then exampleDocument
                                else if html = markedHtml then markedDocument
                                else emptyDocument),
      outerHTML = (\<lambda>n. if n = exampleTagged then exampleTaggedHtml
                         else if n = markedTagged then markedTaggedHtml
                         else []),
      documentWrite = (\<lambda>html. if html = exampleTaggedHtml then Document [exampleTagged]
                              else if html = markedTaggedHtml then Document [markedTagged]
                              else emptyDocument)\<rparr>"

definition initialState :: ui_state where
  "initialState = \<lparr>nodeIdCounter = 0, frameDoc = Document [], treeViz = []\<rparr>"

definition exampleState :: ui_state where
  "exampleState =
     drawTree exampleTree
       \<lparr>nodeIdCounter = 5, frameDoc = Document [exampleTagged], treeViz = []\<rparr>"

definition selectedState :: ui_state where
  "selectedState =
     (case highlightTreeNode ''node-3'' exampleState of Inr s \<Rightarrow> s | Inl e \<Rightarrow> exampleState)"

definition hoveredState :: ui_state where
  "hoveredState =
     (case highlightHTMLSide ''node-4'' selectedState of Inr s \<Rightarrow> s | Inl e \<Rightarrow> selectedState)"

text \<open>The state after an update with the second input.\<close>

definition markedTree :: tree_node where
  "markedTree =
     TreeNode (Some ''node-0'') ''html'' ''x''
       [TreeNode (Some ''node-1'') ''head'' [] [],
        TreeNode (Some ''node-2'') ''body'' ''x''
          [TreeNode (Some ''node-3'') ''p'' ''x'' []]]"

definition markedState :: ui_state where
  "markedState =
     drawTree markedTree
       \<lparr>nodeIdCounter = 4, frameDoc = Document [markedTagged], treeViz = []\<rparr>"

definition markedHoverState :: ui_state where
  "markedHoverState =
     (case highlightHTMLSide ''node-2'' markedState of Inr s \<Rightarrow> s | Inl e \<Rightarrow> markedState)"




section \<open>Lemmas\<close>


subsection \<open>Decimal identifiers\<close>

lemma digit_cases: "d < 10 \<Longrightarrow> d \<in> {0, 1, 2, 3, 4, 5, 6, 7, 8, 9::nat}"
  by auto

lemma digitVal_digitChar: "d < 10 \<Longrightarrow> digitVal (digitChar d) = d"
  using digit_cases [of d] by (auto simp: digitVal_def digitChar_def)

lemma isDigit_digitChar: "d < 10 \<Longrightarrow> isDigit (digitChar d)"
  using digit_cases [of d] by (auto simp: isDigit_def digitChar_def)

lemma numVal_snoc: "numVal (s @ [c]) = 10 * numVal s + digitVal c"
  by (simp add: numVal_def)

lemma numVal_toString: "numVal (toString n) = n"
proof (induction n rule: toString.induct)
  case (1 n)
  show ?case
  proof (cases "n < 10")
    case True
    then show ?thesis
      by (simp add: toString.simps [of n] numVal_def digitVal_digitChar)
  next
    case False
    with 1 show ?thesis
      by (simp add: toString.simps [of n] numVal_snoc digitVal_digitChar)
  qed
qed

lemma toString_digits: "toString n \<noteq> [] \<and> list_all isDigit (toString n)"
proof (induction n rule: toString.induct)
  case (1 n)
  show ?case
  proof (cases "n < 10")
    case True
    then show ?thesis
      by (simp add: toString.simps [of n] isDigit_digitChar)
  next
    case False
    with 1 show ?thesis
      by (simp add: toString.simps [of n] isDigit_digitChar)
  qed
qed

lemma stripPrefix_append: "stripPrefix p (p @ s) = Some s"
  by (induction p) auto

lemma idNumber_nodeIdOf: "idNumber (Some (nodeIdOf k)) = Some k"
proof -
  have "stripPrefix ''node-'' (nodeIdOf k) = Some (toString k)"
    unfolding nodeIdOf_def by (rule stripPrefix_append)
  then have "idNumber (Some (nodeIdOf k))
      = (if toString k \<noteq> [] \<and> list_all isDigit (toString k)
         then Some (numVal (toString k)) else None)"
    unfolding idNumber_def by (simp only: option.case)
  also have "\<dots> = Some k"
    using toString_digits [of k] by (simp only: numVal_toString if_True simp_thms)
  finally show ?thesis .
qed

lemma nodeIdOf_inj: "nodeIdOf j = nodeIdOf k \<Longrightarrow> j = k"
  by (metis idNumber_nodeIdOf option.inject)

lemma distinct_nodeIds: "distinct (map (\<lambda>k. Some (nodeIdOf k)) [a ..< b])"
  by (auto simp: distinct_map inj_on_def dest: nodeIdOf_inj)

lemma plainId_digits: "list_all isDigit ds \<Longrightarrow> plainId ds"
  by (induction ds) (auto simp: plainId_def isDigit_def)

lemma plainId_nodeIdOf: "plainId (nodeIdOf k)"
  using plainId_digits [of "toString k"] toString_digits [of k]
  by (simp add: plainId_def nodeIdOf_def)

subsection \<open>Attributes\<close>

lemma getAttribute_setAttribute: "getAttribute (setAttribute as k v) k = Some v"
  by (induction as) (auto simp: getAttribute_def)

subsection \<open>The tagger\<close>

lemma assign_nonelement: "nodeType n \<noteq> 1 \<Longrightarrow> assignIdsToElements n c = (n, c)"
  by (cases n) simp_all

lemma convert_nonelement: "nodeType n \<noteq> 1 \<Longrightarrow> convertToTree n = None"
  by (cases n) simp_all

lemma convert_Some: "convertToTree n = Some t \<Longrightarrow> nodeType n = 1"
  by (cases n) simp_all

lemma convert_None_iff: "(convertToTree n = None) = (nodeType n \<noteq> 1)"
  by (cases n) simp_all

lemma assign_counter:
  "domSubtree n \<Longrightarrow> snd (assignIdsToElements n c) = c + length (elementsOf n)"
  "domSubtrees ns \<Longrightarrow> snd (assignIdsForEach ns c) = c + length (elementsOfList ns)"
  by (induction n c and ns c rule: assignIdsToElements_assignIdsForEach.induct)
     (auto simp: Let_def split: prod.splits)

lemma upt_head: "[c ..< c + Suc m] = c # [Suc c ..< Suc c + m]"
  by (metis add_Suc_right add_Suc less_add_Suc1 upt_conv_Cons)

lemma assign_identifiers:
  "domSubtree n \<Longrightarrow>
     map identifierOf (elementsOf (fst (assignIdsToElements n c)))
       = map (\<lambda>k. Some (nodeIdOf k)) [c ..< c + length (elementsOf n)]"
  "domSubtrees ns \<Longrightarrow>
     map identifierOf (elementsOfList (fst (assignIdsForEach ns c)))
       = map (\<lambda>k. Some (nodeIdOf k)) [c ..< c + length (elementsOfList ns)]"
proof (induction n c and ns c rule: assignIdsToElements_assignIdsForEach.induct)
  case (1 t as cl cs c)
  let ?g = "\<lambda>k. Some (nodeIdOf k)"
  let ?m = "length (elementsOfList cs)"
  obtain cs' c' where a: "assignIdsForEach cs (Suc c) = (cs', c')" by force
  have len: "length (elementsOf (Element t as cl cs)) = Suc ?m" by simp
  have ih: "map identifierOf (elementsOfList cs') = map ?g [Suc c ..< Suc c + ?m]"
    using 1 a by simp
  have lhs: "map identifierOf (elementsOf (fst (assignIdsToElements (Element t as cl cs) c)))
      = Some (nodeIdOf c) # map identifierOf (elementsOfList cs')"
    using a by (simp add: Let_def getAttribute_setAttribute identifierOf_def)
  show ?case unfolding lhs ih len upt_head by simp
next
  case (6 n ns c)
  obtain n' c1 where a: "assignIdsToElements n c = (n', c1)" by force
  obtain ns' c2 where b: "assignIdsForEach ns c1 = (ns', c2)" by force
  from 6 a have c1: "c1 = c + length (elementsOf n)"
    using assign_counter(1) [of n c] by simp
  have "[c ..< c + (length (elementsOf n) + length (elementsOfList ns))]
      = [c ..< c + length (elementsOf n)] @ [c1 ..< c1 + length (elementsOfList ns)]"
    unfolding c1 by (metis add.assoc le_add1 upt_add_eq_append)
  with 6 a b show ?case by (simp add: Let_def)
qed simp_all

subsection \<open>The extractor\<close>

lemma convert_size:
  "domSubtree n \<Longrightarrow> treeSizeList (convertChildren [n]) = length (elementsOf n)"
  "domSubtrees ns \<Longrightarrow> treeSizeList (convertChildren ns) = length (elementsOfList ns)"
  by (induction n and ns rule: domSubtree_domSubtrees.induct) (auto split: option.splits)

lemma convert_mirrors:
  "nodeType n = 1 \<Longrightarrow> mirrors n (the (convertToTree n))"
  "mirrorsChildren ns (convertChildren ns)"
  by (induction n and ns rule: convertToTree_convertChildren.induct)
     (auto simp: convert_None_iff split: option.splits dest: convert_Some)

subsection \<open>Numbers of a freshly tagged tree\<close>

lemma lessNum_Some: "lessNum (Some a) (Some b) = (a < b)"
  by (simp add: lessNum_def)

lemma numbersWithin_mono:
  "numbersWithin lo hi ts \<Longrightarrow> lo' \<le> lo \<Longrightarrow> hi \<le> hi' \<Longrightarrow> numbersWithin lo' hi' ts"
  unfolding numbersWithin_def by (meson le_trans less_le_trans)

lemma numbersWithin_less:
  "numbersWithin lo hi ts \<Longrightarrow> c < lo \<Longrightarrow> list_all (\<lambda>t. lessNum (Some c) (numberOf t)) ts"
  unfolding numbersWithin_def list_all_iff by (fastforce simp: lessNum_Some)

lemma tagged_increasing:
  "nodeType n = 1 \<longrightarrow>
     (\<exists>t. convertToTree (fst (assignIdsToElements n c)) = Some t \<and> numberOf t = Some c
          \<and> increasing t \<and> c < snd (assignIdsToElements n c))"
  "c \<le> snd (assignIdsForEach ns c)
     \<and> increasingList (convertChildren (fst (assignIdsForEach ns c)))
     \<and> sorted_wrt lessNum (map numberOf (convertChildren (fst (assignIdsForEach ns c))))
     \<and> numbersWithin c (snd (assignIdsForEach ns c)) (convertChildren (fst (assignIdsForEach ns c)))"
proof (induction n c and ns c rule: assignIdsToElements_assignIdsForEach.induct)
  case (1 t as cl cs c)
  obtain cs' c' where a: "assignIdsForEach cs (Suc c) = (cs', c')" by force
  from 1 [of "nodeIdOf c"] a
  have le: "Suc c \<le> c'" and inc: "increasingList (convertChildren cs')"
    and srt: "sorted_wrt lessNum (map numberOf (convertChildren cs'))"
    and rng: "numbersWithin (Suc c) c' (convertChildren cs')"
    by simp_all
  from rng have "list_all (\<lambda>t. lessNum (Some c) (numberOf t)) (convertChildren cs')"
    by (rule numbersWithin_less) simp
  with a le inc srt show ?case
    by (simp add: Let_def getAttribute_setAttribute numberOf_def idNumber_nodeIdOf)
next
  case (6 n ns c)
  obtain n' c1 where a: "assignIdsToElements n c = (n', c1)" by force
  obtain ns' c2 where b: "assignIdsForEach ns c1 = (ns', c2)" by force
  from 6(2) [OF a [symmetric] refl] b
  have le: "c1 \<le> c2" and inc: "increasingList (convertChildren ns')"
    and srt: "sorted_wrt lessNum (map numberOf (convertChildren ns'))"
    and rng: "numbersWithin c1 c2 (convertChildren ns')"
    by simp_all
  show ?case
  proof (cases "nodeType n = 1")
    case True
    with 6(1) a obtain t where t: "convertToTree n' = Some t" "numberOf t = Some c"
      "increasing t" "c < c1" by auto
    from rng t(4) have "list_all (\<lambda>u. lessNum (Some c) (numberOf u)) (convertChildren ns')"
      by (rule numbersWithin_less)
    moreover from rng t(4) have "numbersWithin c c2 (convertChildren ns')"
      by (auto intro: numbersWithin_mono)
    ultimately show ?thesis
      using a b t le inc srt by (auto simp: Let_def list_all_iff numbersWithin_def)
  next
    case False
    then have "assignIdsToElements n c = (n, c)" by (rule assign_nonelement)
    with a have e: "n' = n" "c1 = c" by simp_all
    from False have "convertToTree n = None" by (rule convert_nonelement)
    with a b e le inc srt rng show ?thesis by (simp add: Let_def)
  qed
qed (simp_all add: numbersWithin_def)

subsection \<open>The preview as a list of marks\<close>

lemma marksOf_Nil: "marksOf [] = []"
  by (simp add: marksOf_def)

lemma marksOf_Cons: "marksOf (n # ns) = marksOf [n] @ marksOf ns"
  by (simp add: marksOf_def)

lemma marksOf_Element:
  "marksOf [Element t as cl cs] = (getAttribute as dataNodeId, cl) # marksOf cs"
  by (simp add: marksOf_def identifierOf_def)

lemma marksOf_Text: "marksOf [Text d] = []"
  by (simp add: marksOf_def)

lemma marksOf_Comment: "marksOf [Comment d] = []"
  by (simp add: marksOf_def)

lemma marksOf_Document: "marksOf [Document cs] = marksOf cs"
  by (simp add: marksOf_def)

lemmas marksOf_simps = marksOf_Nil marksOf_Element marksOf_Text marksOf_Comment marksOf_Document

lemma marks_removeClass:
  "marksOf [removeClass c n] = map (\<lambda>m. (fst m, removeAll c (snd m))) (marksOf [n])"
  "marksOf (removeClassList c ns) = map (\<lambda>m. (fst m, removeAll c (snd m))) (marksOf ns)"
proof (induction c n and c ns rule: removeClass_removeClassList.induct)
  case (6 c n ns)
  then show ?case
    using marksOf_Cons [of "removeClass c n" "removeClassList c ns"] marksOf_Cons [of n ns]
    by simp
qed (simp_all add: marksOf_simps classListRemove_def)

lemma flatFirst_nomatch: "Some nid \<notin> fst ` set ms \<Longrightarrow> flatFirst nid f ms = ms"
  by (induction ms) auto

lemma flatFirst_append:
  "flatFirst nid f (xs @ ys)
     = (if Some nid \<in> fst ` set xs then flatFirst nid f xs @ ys else xs @ flatFirst nid f ys)"
  by (induction xs) auto

lemma marks_onFirstMatch:
  "marksOf [fst (onFirstMatch nid f n)] = flatFirst nid f (marksOf [n])
     \<and> snd (onFirstMatch nid f n) = (Some nid \<in> fst ` set (marksOf [n]))"
  "marksOf (fst (onFirstMatchList nid f ns)) = flatFirst nid f (marksOf ns)
     \<and> snd (onFirstMatchList nid f ns) = (Some nid \<in> fst ` set (marksOf ns))"
proof (induction nid f n and nid f ns rule: onFirstMatch_onFirstMatchList.induct)
  case (1 nid f t as cl cs)
  obtain cs' found where a: "onFirstMatchList nid f cs = (cs', found)" by force
  show ?case
  proof (cases "getAttribute as dataNodeId = Some nid")
    case True
    then show ?thesis by (simp add: marksOf_simps)
  next
    case False
    with 1 a show ?thesis by (simp add: marksOf_simps)
  qed
next
  case (4 nid f cs)
  obtain cs' found where a: "onFirstMatchList nid f cs = (cs', found)" by force
  with 4 show ?case by (simp add: marksOf_simps)
next
  case (6 nid f n ns)
  obtain n' found where a: "onFirstMatch nid f n = (n', found)" by force
  obtain ns' found' where b: "onFirstMatchList nid f ns = (ns', found')" by force
  from 6(1) a have n: "marksOf [n'] = flatFirst nid f (marksOf [n])"
    "found = (Some nid \<in> fst ` set (marksOf [n]))" by simp_all
  show ?case
  proof (cases found)
    case True
    with a n show ?thesis
      using marksOf_Cons [of n' ns] marksOf_Cons [of n ns]
      by (simp add: flatFirst_append image_Un)
  next
    case False
    with 6(2) [OF a [symmetric] refl] b
    have ns: "marksOf ns' = flatFirst nid f (marksOf ns)"
      "found' = (Some nid \<in> fst ` set (marksOf ns))" by simp_all
    from False a b n ns show ?thesis
      using marksOf_Cons [of n ns'] marksOf_Cons [of n ns]
      by (simp add: flatFirst_append image_Un)
  qed
qed (simp_all add: marksOf_simps)

lemma firstMatch_None:
  "(firstMatch nid n = None) = (Some nid \<notin> fst ` set (marksOf [n]))"
  "(firstMatchList nid ns = None) = (Some nid \<notin> fst ` set (marksOf ns))"
proof (induction nid n and nid ns rule: firstMatch_firstMatchList.induct)
  case (6 nid n ns)
  then show ?case
    using marksOf_Cons [of n ns] by (auto split: option.splits)
qed (auto simp: marksOf_simps)

lemma childNodes_setChildNodes:
  "g [] = [] \<Longrightarrow> childNodes (setChildNodes d (g (childNodes d))) = g (childNodes d)"
  by (cases d) simp_all

lemma setChildNodes_same: "setChildNodes d (childNodes d) = d"
  by (cases d) simp_all

lemma removeClass_absent:
  "\<forall>m \<in> set (marksOf [n]). c \<notin> set (snd m) \<Longrightarrow> removeClass c n = n"
  "\<forall>m \<in> set (marksOf ns). c \<notin> set (snd m) \<Longrightarrow> removeClassList c ns = ns"
proof (induction c n and c ns rule: removeClass_removeClassList.induct)
  case (6 c n ns)
  then show ?case
    using marksOf_Cons [of n ns] by auto
qed (auto simp: marksOf_simps)

subsection \<open>The operations on the marks\<close>


lemma previewMarks_reset:
  "previewMarks (resetHTMLHighlights s) = map clearMarks (previewMarks s)"
proof -
  let ?g = "\<lambda>ns. removeClassList ''hovered'' (removeClassList ''highlighted'' ns)"
  have "childNodes (setChildNodes (frameDoc s) (?g (childNodes (frameDoc s))))
      = ?g (childNodes (frameDoc s))"
    by (rule childNodes_setChildNodes) simp
  then show ?thesis
    by (simp add: previewMarks_def resetHTMLHighlights_def marks_removeClass(2) clearMarks_def
        comp_def)
qed

lemma previewMarks_changeFirstMatch:
  "marksOf (childNodes (changeFirstMatch nid f d)) = flatFirst nid f (marksOf (childNodes d))"
proof (cases d)
  case (Element t as cl cs)
  then show ?thesis by (simp add: changeFirstMatch_def marks_onFirstMatch(2))
next
  case (Document cs)
  then show ?thesis by (simp add: changeFirstMatch_def marks_onFirstMatch(2))
qed (simp_all add: changeFirstMatch_def marksOf_simps)

lemma querySelector_plain:
  "plainId nid \<Longrightarrow>
     querySelector d nid = Inr (firstMatchList nid (childNodes d))"
  by (simp add: querySelector_def)

lemma hover_marks:
  assumes "plainId nid"
  shows "\<exists>s1. highlightHTMLSide nid s = Inr s1
           \<and> previewMarks s1 = flatFirst nid (classListAdd ''hovered'') (previewMarks s)
           \<and> treeViz s1 = treeViz s \<and> nodeIdCounter s1 = nodeIdCounter s"
proof (cases "firstMatchList nid (childNodes (frameDoc s))")
  case None
  then have "Some nid \<notin> fst ` set (previewMarks s)"
    by (simp add: firstMatch_None(2) previewMarks_def)
  with None assms show ?thesis
    by (simp add: highlightHTMLSide_def querySelector_plain flatFirst_nomatch)
next
  case (Some el)
  with assms show ?thesis
    by (simp add: highlightHTMLSide_def querySelector_plain previewMarks_def
        previewMarks_changeFirstMatch)
qed

lemma unhover_marks:
  assumes "plainId nid"
  shows "\<exists>s1. unhighlightHTMLSide nid s = Inr s1
           \<and> previewMarks s1 = flatFirst nid (classListRemove ''hovered'') (previewMarks s)
           \<and> treeViz s1 = treeViz s \<and> nodeIdCounter s1 = nodeIdCounter s"
proof (cases "firstMatchList nid (childNodes (frameDoc s))")
  case None
  then have "Some nid \<notin> fst ` set (previewMarks s)"
    by (simp add: firstMatch_None(2) previewMarks_def)
  with None assms show ?thesis
    by (simp add: unhighlightHTMLSide_def querySelector_plain flatFirst_nomatch)
next
  case (Some el)
  with assms show ?thesis
    by (simp add: unhighlightHTMLSide_def querySelector_plain previewMarks_def
        previewMarks_changeFirstMatch)
qed

lemma select_marks:
  assumes "plainId nid"
  shows "\<exists>s1. highlightTreeNode nid s = Inr s1
           \<and> previewMarks s1
               = flatFirst nid (classListAdd ''highlighted'') (map clearMarks (previewMarks s))
           \<and> treeViz s1 = map (\<lambda>v. v\<lparr>highlighted := (nodeId (datum v) = Some nid)\<rparr>) (treeViz s)
           \<and> nodeIdCounter s1 = nodeIdCounter s"
proof -
  define s2 where "s2 = (resetTreeHighlights s)\<lparr>treeViz :=
      map (\<lambda>v. if nodeId (datum v) = Some nid then v\<lparr>highlighted := True\<rparr> else v)
        (treeViz (resetTreeHighlights s))\<rparr>"
  define s3 where "s3 = resetHTMLHighlights s2"
  have tv: "treeViz s3 = map (\<lambda>v. v\<lparr>highlighted := (nodeId (datum v) = Some nid)\<rparr>) (treeViz s)"
    by (simp add: s3_def s2_def resetHTMLHighlights_def resetTreeHighlights_def comp_def)
  have cn: "nodeIdCounter s3 = nodeIdCounter s"
    by (simp add: s3_def s2_def resetHTMLHighlights_def resetTreeHighlights_def)
  have "previewMarks s2 = previewMarks s"
    by (simp add: s2_def previewMarks_def resetTreeHighlights_def)
  then have pm: "previewMarks s3 = map clearMarks (previewMarks s)"
    by (simp add: s3_def previewMarks_reset)
  have h: "highlightTreeNode nid s =
      (case firstMatchList nid (childNodes (frameDoc s3)) of
         None \<Rightarrow> Inr s3
       | Some el \<Rightarrow> Inr (s3\<lparr>frameDoc :=
           changeFirstMatch nid (classListAdd ''highlighted'') (frameDoc s3)\<rparr>))"
    using assms unfolding highlightTreeNode_def Let_def s3_def s2_def querySelector_def
    by (simp split: option.splits)
  show ?thesis
  proof (cases "firstMatchList nid (childNodes (frameDoc s3))")
    case None
    then have "Some nid \<notin> fst ` set (previewMarks s3)"
      by (simp add: firstMatch_None(2) previewMarks_def)
    with None h tv cn pm show ?thesis
      by (simp add: flatFirst_nomatch)
  next
    case (Some el)
    with h tv cn pm show ?thesis
      by (simp add: previewMarks_def previewMarks_changeFirstMatch)
  qed
qed

lemma flatFirst_compose: "flatFirst nid g (flatFirst nid f ms) = flatFirst nid (g \<circ> f) ms"
  by (induction ms) auto

lemma flatFirst_unchanged:
  "\<forall>m \<in> set ms. f (snd m) = snd m \<Longrightarrow> flatFirst nid f ms = ms"
  by (induction ms) (auto simp: prod_eq_iff)

lemma flatFirst_keeps:
  "(\<And>cl. (c \<in> set (f cl)) = (c \<in> set cl)) \<Longrightarrow>
     map (\<lambda>m. c \<in> set (snd m)) (flatFirst nid f ms) = map (\<lambda>m. c \<in> set (snd m)) ms"
  by (induction ms) auto

lemma flatFirst_keeps_filter:
  "(\<And>cl. (c \<in> set (f cl)) = (c \<in> set cl)) \<Longrightarrow>
     map fst (filter (\<lambda>m. c \<in> set (snd m)) (flatFirst nid f ms))
       = map fst (filter (\<lambda>m. c \<in> set (snd m)) ms)"
  by (induction ms) auto

lemma flatFirst_add_marks:
  "\<forall>m \<in> set ms. c \<notin> set (snd m) \<Longrightarrow>
     map fst (filter (\<lambda>m. c \<in> set (snd m)) (flatFirst nid (classListAdd c) ms))
       = (if Some nid \<in> fst ` set ms then [Some nid] else [])"
proof (induction ms)
  case Nil
  show ?case by simp
next
  case (Cons m ms)
  then have "filter (\<lambda>m. c \<in> set (snd m)) ms = []"
    by (simp add: filter_empty_conv)
  with Cons show ?case by (auto simp: classListAdd_def)
qed

lemma classList_remove_add: "classListRemove c (classListAdd c cl) = classListRemove c cl"
  by (simp add: classListRemove_def classListAdd_def)

lemma classListRemove_absent: "c \<notin> set cl \<Longrightarrow> classListRemove c cl = cl"
  by (simp add: classListRemove_def)

lemma classListAdd_other: "c' \<noteq> c \<Longrightarrow> (c' \<in> set (classListAdd c cl)) = (c' \<in> set cl)"
  by (auto simp: classListAdd_def)

subsection \<open>Selecting an identifier that matches nothing\<close>

lemma clearMarks_fst: "map fst (map clearMarks ms) = map fst ms"
  by (simp add: clearMarks_def comp_def)

lemma clearMarks_fst_image: "fst ` clearMarks ` S = fst ` S"
  by (simp add: clearMarks_def image_image)

lemma cleared_tree: "selectedOnTree (clearedState s) = []"
  by (simp add: selectedOnTree_def clearedState_def resetHTMLHighlights_def
      resetTreeHighlights_def filter_empty_conv)

lemma cleared_marks: "previewMarks (clearedState s) = map clearMarks (previewMarks s)"
proof -
  have "previewMarks (resetTreeHighlights s) = previewMarks s"
    by (simp add: previewMarks_def resetTreeHighlights_def)
  then show ?thesis by (simp add: clearedState_def previewMarks_reset)
qed

lemma cleared_selected: "selectedOnPreview (clearedState s) = []"
  by (simp add: selectedOnPreview_def cleared_marks filter_empty_conv clearMarks_def)

lemma cleared_hovered: "hoveredOnPreview (clearedState s) = []"
  by (simp add: hoveredOnPreview_def cleared_marks filter_empty_conv clearMarks_def)

lemma cleared_data: "map datum (treeViz (clearedState s)) = map datum (treeViz s)"
  by (simp add: clearedState_def resetHTMLHighlights_def resetTreeHighlights_def comp_def)

lemma unmark_none: "filter highlighted vs = [] \<Longrightarrow> map (\<lambda>v. v\<lparr>highlighted := False\<rparr>) vs = vs"
  by (induction vs) (auto split: if_splits)

lemma cleared_same:
  assumes "selectedOnTree s = []" and "selectedOnPreview s = []" and "hoveredOnPreview s = []"
  shows "clearedState s = s"
proof -
  from assms(1) have "filter highlighted (treeViz s) = []"
    by (simp add: selectedOnTree_def)
  then have t: "resetTreeHighlights s = s"
    by (simp add: resetTreeHighlights_def unmark_none)
  from assms(2) have a: "\<forall>m \<in> set (marksOf (childNodes (frameDoc s))). ''highlighted'' \<notin> set (snd m)"
    by (simp add: selectedOnPreview_def previewMarks_def filter_empty_conv)
  from assms(3) have b: "\<forall>m \<in> set (marksOf (childNodes (frameDoc s))). ''hovered'' \<notin> set (snd m)"
    by (simp add: hoveredOnPreview_def previewMarks_def filter_empty_conv)
  have "removeClassList ''hovered'' (removeClassList ''highlighted'' (childNodes (frameDoc s)))
      = childNodes (frameDoc s)"
    by (simp add: removeClass_absent(2) [OF a] removeClass_absent(2) [OF b])
  then have "resetHTMLHighlights s = s"
    by (simp add: resetHTMLHighlights_def setChildNodes_same)
  with t show ?thesis by (simp add: clearedState_def)
qed

lemma mark_none:
  "Some nid \<notin> set (map (\<lambda>v. nodeId (datum v)) vs) \<Longrightarrow>
     map (\<lambda>v. if nodeId (datum v) = Some nid then v\<lparr>highlighted := True\<rparr> else v) vs = vs"
  by (induction vs) auto

subsection \<open>Identifiers of the extracted tree\<close>

lemma convertChildren_Cons: "convertChildren (n # ns) = convertChildren [n] @ convertChildren ns"
  by (simp split: option.splits)

lemma preOrderList_append: "preOrderList (ts @ us) = preOrderList ts @ preOrderList us"
  by (induction ts) simp_all

lemma preOrder_unfold: "preOrder t = t # preOrderList (children t)"
  by (cases t) simp

lemma upt_split: "a \<le> b \<Longrightarrow> b \<le> c \<Longrightarrow> [a ..< c] = [a ..< b] @ [b ..< c]"
  by (metis le_add_diff_inverse upt_add_eq_append)

lemma tagged_tree_ids:
  "map nodeId (preOrderList (convertChildren [fst (assignIdsToElements n c)]))
       = map (\<lambda>k. Some (nodeIdOf k)) [c ..< snd (assignIdsToElements n c)]
     \<and> c \<le> snd (assignIdsToElements n c)"
  "map nodeId (preOrderList (convertChildren (fst (assignIdsForEach ns c))))
       = map (\<lambda>k. Some (nodeIdOf k)) [c ..< snd (assignIdsForEach ns c)]
     \<and> c \<le> snd (assignIdsForEach ns c)"
proof (induction n c and ns c rule: assignIdsToElements_assignIdsForEach.induct)
  case (1 t as cl cs c)
  obtain cs' c' where a: "assignIdsForEach cs (Suc c) = (cs', c')" by force
  from 1 [of "nodeIdOf c"] a
  have ih: "map nodeId (preOrderList (convertChildren cs'))
      = map (\<lambda>k. Some (nodeIdOf k)) [Suc c ..< c']" and le: "Suc c \<le> c'"
    by simp_all
  from le have "[c ..< c'] = c # [Suc c ..< c']"
    by (simp add: upt_conv_Cons)
  with a ih le show ?case
    by (simp add: Let_def getAttribute_setAttribute)
next
  case (6 n ns c)
  obtain n' c1 where a: "assignIdsToElements n c = (n', c1)" by force
  obtain ns' c2 where b: "assignIdsForEach ns c1 = (ns', c2)" by force
  from 6(1) a have h1: "map nodeId (preOrderList (convertChildren [n']))
      = map (\<lambda>k. Some (nodeIdOf k)) [c ..< c1]" and l1: "c \<le> c1"
    by simp_all
  from 6(2) [OF a [symmetric] refl] b
  have h2: "map nodeId (preOrderList (convertChildren ns'))
      = map (\<lambda>k. Some (nodeIdOf k)) [c1 ..< c2]" and l2: "c1 \<le> c2"
    by simp_all
  have "map nodeId (preOrderList (convertChildren (n' # ns')))
      = map (\<lambda>k. Some (nodeIdOf k)) [c ..< c2]"
    unfolding convertChildren_Cons [of n' ns'] preOrderList_append map_append h1 h2
      upt_split [OF l1 l2] by simp
  with a b l1 l2 show ?case by (simp add: Let_def del: convertChildren.simps)
qed simp_all

lemma levelOrder_mset: "mset (levelOrder q) = mset (preOrderList q)"
proof (induction q rule: levelOrder.induct)
  case 1
  show ?case by simp
next
  case (2 t ts)
  then show ?case
    by (simp add: preOrderList_append preOrder_unfold)
qed

lemma levelOrder_distinct:
  assumes "distinct (map f (preOrderList q))"
  shows "distinct (map f (levelOrder q))"
proof -
  have "mset (map f (levelOrder q)) = mset (map f (preOrderList q))"
    by (simp add: levelOrder_mset)
  with assms show ?thesis
    by (metis mset_eq_imp_distinct_iff)
qed

subsection \<open>What an update leaves\<close>

lemma documentElement_element: "documentElement d = Some root \<Longrightarrow> nodeType root = 1"
  by (auto simp: documentElement_def find_Some_iff)

lemma updateTree_result:
  assumes "documentElement (parseFromString P html) = Some root"
  shows "updateTree P html s =
     Inr \<lparr>nodeIdCounter = snd (assignIdsToElements root 0),
          frameDoc = documentWrite P (outerHTML P (fst (assignIdsToElements root 0))),
          treeViz = map (\<lambda>d. \<lparr>datum = d, title = tooltip d, highlighted = False\<rparr>)
                      (levelOrder (convertChildren [fst (assignIdsToElements root 0)]))\<rparr>"
proof -
  obtain root' c where a: "assignIdsToElements root 0 = (root', c)" by force
  from assms have "nodeType root = 1" by (rule documentElement_element)
  then obtain t where "convertToTree (fst (assignIdsToElements root 0)) = Some t"
    using tagged_increasing(1) [of root 0] by auto
  with a have t: "convertToTree root' = Some t" by simp
  show ?thesis
    using assms a t
    by (cases s) (simp add: updateTree_def taggingPass_def renderHTML_def drawTree_def Let_def)
qed

lemma updateTree_error:
  "documentElement (parseFromString P html) = None \<Longrightarrow> updateTree P html s = Inl TypeError"
  by (simp add: updateTree_def Let_def)

lemma updateTree_distinct:
  assumes "updateTree P html s0 = Inr s"
  shows "distinct (map (\<lambda>v. nodeId (datum v)) (treeViz s))"
proof (cases "documentElement (parseFromString P html)")
  case None
  with assms show ?thesis by (simp add: updateTree_error)
next
  case (Some root)
  let ?ts = "convertChildren [fst (assignIdsToElements root 0)]"
  have "distinct (map nodeId (preOrderList ?ts))"
    using tagged_tree_ids(1) [of root 0] by (simp add: distinct_nodeIds)
  then have "distinct (map nodeId (levelOrder ?ts))"
    by (rule levelOrder_distinct)
  with assms show ?thesis
    unfolding updateTree_result [OF Some] by (auto simp: comp_def)
qed

subsection \<open>Sequences of selections\<close>

lemma selectionCalls_snoc:
  "selectionCalls (nids @ [nid]) s =
     (case selectionCalls nids s of Inl e \<Rightarrow> Inl e | Inr s1 \<Rightarrow> highlightTreeNode nid s1)"
  by (induction nids arbitrary: s) (auto split: sum.splits)

lemma selectionCalls_data:
  "list_all plainId nids \<Longrightarrow>
     \<exists>s'. selectionCalls nids s = Inr s' \<and> map datum (treeViz s') = map datum (treeViz s)"
proof (induction nids arbitrary: s)
  case Nil
  show ?case by simp
next
  case (Cons nid nids)
  then have p: "plainId nid" and ps: "list_all plainId nids" by simp_all
  from select_marks [OF p, of s] obtain s1 where
    s1: "highlightTreeNode nid s = Inr s1"
      "treeViz s1 = map (\<lambda>v. v\<lparr>highlighted := (nodeId (datum v) = Some nid)\<rparr>) (treeViz s)"
    by blast
  from s1(2) have "map datum (treeViz s1) = map datum (treeViz s)"
    by (simp add: comp_def)
  with Cons.IH [OF ps, of s1] s1(1) show ?case by auto
qed

lemma filter_eq_distinct: "distinct xs \<Longrightarrow> length (filter (\<lambda>x. x = a) xs) \<le> Suc 0"
  by (induction xs) (auto simp: filter_empty_conv)

lemma selected_after_mark:
  "map (\<lambda>v. nodeId (datum v))
     (filter highlighted (map (\<lambda>v. v\<lparr>highlighted := (nodeId (datum v) = Some nid)\<rparr>) vs))
   = filter (\<lambda>i. i = Some nid) (map (\<lambda>v. nodeId (datum v)) vs)"
  by (induction vs) auto

lemma select_single:
  assumes "plainId nid" and "distinct (map (\<lambda>v. nodeId (datum v)) (treeViz s))"
    and "highlightTreeNode nid s = Inr s1"
  shows "length (selectedOnTree s1) \<le> 1 \<and> length (selectedOnPreview s1) \<le> 1
         \<and> set (selectedOnTree s1) \<subseteq> {Some nid} \<and> set (selectedOnPreview s1) \<subseteq> {Some nid}"
proof -
  from select_marks [OF assms(1), of s] assms(3)
  have pm: "previewMarks s1
      = flatFirst nid (classListAdd ''highlighted'') (map clearMarks (previewMarks s))"
    and tv: "treeViz s1 = map (\<lambda>v. v\<lparr>highlighted := (nodeId (datum v) = Some nid)\<rparr>) (treeViz s)"
    by simp_all
  have t: "selectedOnTree s1
      = filter (\<lambda>i. i = Some nid) (map (\<lambda>v. nodeId (datum v)) (treeViz s))"
    unfolding selectedOnTree_def tv by (rule selected_after_mark)
  have t1: "length (selectedOnTree s1) \<le> 1"
    unfolding t using filter_eq_distinct [OF assms(2), of "Some nid"] by simp
  have t2: "set (selectedOnTree s1) \<subseteq> {Some nid}"
    unfolding t by auto
  have "\<forall>m \<in> set (map clearMarks (previewMarks s)). ''highlighted'' \<notin> set (snd m)"
    by (simp add: clearMarks_def)
  then have p: "selectedOnPreview s1
      = (if Some nid \<in> fst ` set (map clearMarks (previewMarks s)) then [Some nid] else [])"
    unfolding selectedOnPreview_def pm by (rule flatFirst_add_marks)
  from t1 t2 p show ?thesis by simp
qed

subsection \<open>What tagging keeps\<close>



lemma assign_classes:
  "map classList (elementsOf (fst (assignIdsToElements n c))) = map classList (elementsOf n)"
  "map classList (elementsOfList (fst (assignIdsForEach ns c))) = map classList (elementsOfList ns)"
  by (induction n c and ns c rule: assignIdsToElements_assignIdsForEach.induct)
     (auto simp: Let_def split: prod.splits)










lemma marksOf_elements:
  "marksOf [n] = map (\<lambda>e. (identifierOf e, classList e)) (elementsOf n)"
  by (simp add: marksOf_def)

lemma no_selected_iff: "(selectedOnPreview s = []) = (True \<notin> set (selectedFlags s))"
  by (auto simp: selectedOnPreview_def selectedFlags_def filter_empty_conv)

lemma no_hovered_iff: "(hoveredOnPreview s = []) = (True \<notin> set (hoveredFlags s))"
  by (auto simp: hoveredOnPreview_def hoveredFlags_def filter_empty_conv)

section \<open>The tagger numbers the elements in document order\<close>

text \<open>
  C1. For an element tree with \<open>N\<close> elements, the tagging pass (counter reset to zero,
  then the tagger) leaves the elements, read in depth-first pre-order, with the
  identifiers \<^verbatim>\<open>node-0\<close> to \<^verbatim>\<open>node-(N-1)\<close> in this order: \<open>N\<close> identifiers, all
  distinct, and the counter at \<open>N\<close>. A second pass on an equal tree, whatever state
  the first one left, gives the same tagged tree.
\<close>

theorem tagger_identifiers_preorder:
  assumes "elementTree e"
  shows "identifiers (fst (taggingPass e s))
           = map (\<lambda>k. Some (nodeIdOf k)) [0 ..< length (elementsOf e)]
         \<and> length (identifiers (fst (taggingPass e s))) = length (elementsOf e)
         \<and> distinct (identifiers (fst (taggingPass e s)))
         \<and> nodeIdCounter (snd (taggingPass e s)) = length (elementsOf e)
         \<and> fst (taggingPass e s') = fst (taggingPass e s)"
proof -
  from assms have d: "domSubtree e" by (simp add: elementTree_def)
  have f: "fst (taggingPass e s) = fst (assignIdsToElements e 0)" for s
    by (simp add: taggingPass_def split: prod.splits)
  have ids: "identifiers (fst (taggingPass e s))
      = map (\<lambda>k. Some (nodeIdOf k)) [0 ..< length (elementsOf e)]"
    unfolding f identifiers_def using assign_identifiers(1) [OF d, of 0] by simp
  have cnt: "nodeIdCounter (snd (taggingPass e s)) = length (elementsOf e)"
    using assign_counter(1) [OF d, of 0] by (auto simp: taggingPass_def split: prod.splits)
  show ?thesis
    unfolding ids using cnt f [of s] f [of s'] by (simp add: distinct_nodeIds)
qed

theorem tagger_identifiers_preorder_witness:
  "elementTree exampleRoot
   \<and> identifiers (fst (taggingPass exampleRoot initialState))
       = [Some ''node-0'', Some ''node-1'', Some ''node-2'', Some ''node-3'', Some ''node-4'']
   \<and> distinct (identifiers (fst (taggingPass exampleRoot initialState)))
   \<and> nodeIdCounter (snd (taggingPass exampleRoot initialState)) = 5"
proof -
  have h: "elementTree exampleRoot"
    by (simp add: elementTree_def exampleRoot_def)
  have l: "length (elementsOf exampleRoot) = 5"
    by (simp add: exampleRoot_def)
  have u: "map (\<lambda>k. Some (nodeIdOf k)) [0 ..< 5]
      = [Some ''node-0'', Some ''node-1'', Some ''node-2'', Some ''node-3'', Some ''node-4'']"
    by code_simp
  from tagger_identifiers_preorder [OF h, of initialState initialState] h l u
  show ?thesis by simp
qed

section \<open>Extraction keeps the structure\<close>

text \<open>
  C2. For an element tree in which every element is tagged, \<^verbatim>\<open>convertToTree\<close> returns a
  tree with as many nodes as there are tagged elements, and the tree mirrors the source:
  each tree node has the identifier and the lower-cased tag name of its element, and
  its children are, one for one and in document order, the trees of the element
  children of that element.
\<close>

theorem extraction_preserves_structure:
  assumes "elementTree e" and "list_all isTagged (elementsOf e)"
  shows "\<exists>t. convertToTree e = Some t
           \<and> treeSize t = length (filter isTagged (elementsOf e))
           \<and> mirrors e t"
proof -
  from assms(1) have el: "nodeType e = 1" and d: "domSubtree e"
    by (simp_all add: elementTree_def)
  from el obtain t where t: "convertToTree e = Some t"
    using convert_None_iff [of e] by auto
  from t have "convertChildren [e] = [t]" by simp
  with convert_size(1) [OF d] have sz: "treeSize t = length (elementsOf e)" by simp
  from assms(2) have "filter isTagged (elementsOf e) = elementsOf e"
    by (simp add: list_all_iff)
  with sz t convert_mirrors(1) [OF el] show ?thesis by simp
qed

theorem extraction_preserves_structure_witness:
  "elementTree exampleTagged \<and> list_all isTagged (elementsOf exampleTagged)
   \<and> convertToTree exampleTagged = Some exampleTree \<and> treeSize exampleTree = 5
   \<and> mirrors exampleTagged exampleTree"
proof -
  have h1: "elementTree exampleTagged"
    by (simp add: elementTree_def exampleTagged_def)
  have h2: "list_all isTagged (elementsOf exampleTagged)"
    by code_simp
  have c: "convertToTree exampleTagged = Some exampleTree"
    by code_simp
  have n: "length (filter isTagged (elementsOf exampleTagged)) = 5"
    by code_simp
  from extraction_preserves_structure [OF h1 h2] h1 h2 c n show ?thesis by auto
qed

section \<open>One selection at a time\<close>

text \<open>
  C3. Start from the state an update leaves and make any sequence of selection calls, at
  least one, with plain identifiers. Afterwards at most one node of the tree
  visualisation and at most one element of the preview carry the selected marker, and
  whatever carries it on either surface has the identifier of the last call, so the two
  surfaces agree.
\<close>

theorem single_selection:
  assumes "updateTree P html s0 = Inr s" and "nids \<noteq> []" and "list_all plainId nids"
  shows "\<exists>s'. selectionCalls nids s = Inr s'
           \<and> length (selectedOnTree s') \<le> 1 \<and> length (selectedOnPreview s') \<le> 1
           \<and> set (selectedOnTree s') \<subseteq> {Some (last nids)}
           \<and> set (selectedOnPreview s') \<subseteq> {Some (last nids)}"
proof -
  from assms(2) have split: "nids = butlast nids @ [last nids]" by simp
  from assms(3) have p1: "list_all plainId (butlast nids)" and p2: "plainId (last nids)"
    using assms(2) by (auto simp: list_all_iff dest: in_set_butlastD)
  from selectionCalls_data [OF p1, of s] obtain s1 where
    s1: "selectionCalls (butlast nids) s = Inr s1" "map datum (treeViz s1) = map datum (treeViz s)"
    by blast
  have "map (\<lambda>v. nodeId (datum v)) (treeViz s1) = map nodeId (map datum (treeViz s1))"
    by (simp add: comp_def)
  also have "\<dots> = map (\<lambda>v. nodeId (datum v)) (treeViz s)"
    unfolding s1(2) by (simp add: comp_def)
  finally have d: "distinct (map (\<lambda>v. nodeId (datum v)) (treeViz s1))"
    using updateTree_distinct [OF assms(1)] by simp
  from select_marks [OF p2, of s1] obtain s' where s': "highlightTreeNode (last nids) s1 = Inr s'"
    by blast
  have "selectionCalls (butlast nids @ [last nids]) s = Inr s'"
    unfolding selectionCalls_snoc s1(1) using s' by simp
  with split have "selectionCalls nids s = Inr s'" by simp
  with select_single [OF p2 d s'] show ?thesis by simp
qed

theorem single_selection_witness:
  "updateTree exampleBrowser exampleHtml initialState = Inr exampleState
   \<and> list_all plainId [''node-1'', ''node-3'']
   \<and> selectionCalls [''node-1'', ''node-3''] exampleState = Inr selectedState
   \<and> selectedOnTree selectedState = [Some ''node-3'']
   \<and> selectedOnPreview selectedState = [Some ''node-3'']"
proof -
  have h1: "updateTree exampleBrowser exampleHtml initialState = Inr exampleState"
    by code_simp
  have h2: "[''node-1'', ''node-3''] \<noteq> []" by simp
  have h3: "list_all plainId [''node-1'', ''node-3'']" by code_simp
  have c: "selectionCalls [''node-1'', ''node-3''] exampleState = Inr selectedState"
    by code_simp
  have d: "selectedOnTree selectedState = [Some ''node-3'']"
    "selectedOnPreview selectedState = [Some ''node-3'']"
    by code_simp+
  from single_selection [OF h1 h2 h3] h1 h3 c d show ?thesis by simp
qed

section \<open>Nodes that are not elements\<close>



section \<open>Running the update twice\<close>

text \<open>
  C5, as the code has it. An update that succeeds leaves a state that does not depend on
  the state before it: a second run with the same input, from the state the first one
  left or from any other, ends in the very same state, with the same identifiers, the
  same tree and the same preview document, so no marker of an earlier selection or hover
  survives. No node of the tree visualisation is selected after a run. The preview is
  the document the platform builds from the serialised tagged root; where this gives
  back the tagged root, the elements of the preview have the identifiers of the tagged
  root, and the ones that carry the selected marker, or the hover marker, are exactly
  the ones whose class list in the parsed input has \<^verbatim>\<open>highlighted\<close>, or
  \<^verbatim>\<open>hovered\<close>: none at all when the markup uses neither class name.
\<close>

theorem update_idempotent:
  assumes "updateTree P html s = Inr s'"
  shows "updateTree P html s' = Inr s' \<and> updateTree P html s0 = Inr s'
         \<and> selectedOnTree s' = []
         \<and> (\<exists>root. documentElement (parseFromString P html) = Some root
               \<and> map datum (treeViz s') = levelOrder (convertChildren [fst (taggingPass root s)])
               \<and> frameDoc s' = documentWrite P (outerHTML P (fst (taggingPass root s)))
               \<and> (documentWrite P (outerHTML P (fst (taggingPass root s)))
                     = Document [fst (taggingPass root s)] \<longrightarrow>
                   previewIdentifiers s' = identifiers (fst (taggingPass root s))
                   \<and> selectedFlags s' = classFlags ''highlighted'' root
                   \<and> hoveredFlags s' = classFlags ''hovered'' root
                   \<and> (True \<notin> set (classFlags ''highlighted'' root) \<longrightarrow> selectedOnPreview s' = [])
                   \<and> (True \<notin> set (classFlags ''hovered'' root) \<longrightarrow> hoveredOnPreview s' = [])))"
proof (cases "documentElement (parseFromString P html)")
  case None
  with assms show ?thesis by (simp add: updateTree_error)
next
  case (Some root)
  let ?r = "fst (taggingPass root s)"
  have tp: "?r = fst (assignIdsToElements root 0)"
    by (simp add: taggingPass_def split: prod.splits)
  from assms have s': "s' = \<lparr>nodeIdCounter = snd (assignIdsToElements root 0),
          frameDoc = documentWrite P (outerHTML P (fst (assignIdsToElements root 0))),
          treeViz = map (\<lambda>d. \<lparr>datum = d, title = tooltip d, highlighted = False\<rparr>)
                      (levelOrder (convertChildren [fst (assignIdsToElements root 0)]))\<rparr>"
    unfolding updateTree_result [OF Some] by simp
  have a: "updateTree P html s' = Inr s'" "updateTree P html s0 = Inr s'"
    unfolding updateTree_result [OF Some] s' by simp_all
  have b: "selectedOnTree s' = []"
    unfolding s' by (simp add: selectedOnTree_def filter_empty_conv)
  have c: "map datum (treeViz s') = levelOrder (convertChildren [?r])"
    unfolding s' tp by (simp add: comp_def)
  have d: "frameDoc s' = documentWrite P (outerHTML P ?r)"
    unfolding s' tp by simp
  have e: "previewIdentifiers s' = identifiers ?r
      \<and> selectedFlags s' = classFlags ''highlighted'' root
      \<and> hoveredFlags s' = classFlags ''hovered'' root
      \<and> (True \<notin> set (classFlags ''highlighted'' root) \<longrightarrow> selectedOnPreview s' = [])
      \<and> (True \<notin> set (classFlags ''hovered'' root) \<longrightarrow> hoveredOnPreview s' = [])"
    if rt: "documentWrite P (outerHTML P ?r) = Document [?r]"
  proof -
    from d rt have pm: "previewMarks s' = map (\<lambda>e. (identifierOf e, classList e)) (elementsOf ?r)"
      by (simp add: previewMarks_def marksOf_elements)
    have cls: "map classList (elementsOf ?r) = map classList (elementsOf root)"
      unfolding tp by (rule assign_classes(1))
    have i: "previewIdentifiers s' = identifiers ?r"
      by (simp add: previewIdentifiers_def pm identifiers_def comp_def)
    have "selectedFlags s' = map (\<lambda>cl. ''highlighted'' \<in> set cl) (map classList (elementsOf ?r))"
      by (simp add: selectedFlags_def pm comp_def)
    then have f: "selectedFlags s' = classFlags ''highlighted'' root"
      unfolding cls by (simp add: classFlags_def comp_def)
    have "hoveredFlags s' = map (\<lambda>cl. ''hovered'' \<in> set cl) (map classList (elementsOf ?r))"
      by (simp add: hoveredFlags_def pm comp_def)
    then have g: "hoveredFlags s' = classFlags ''hovered'' root"
      unfolding cls by (simp add: classFlags_def comp_def)
    from i f g show ?thesis
      by (simp add: no_selected_iff no_hovered_iff)
  qed
  from Some a b c d e show ?thesis by blast
qed

theorem update_idempotent_witness:
  "updateTree exampleBrowser markedHtml initialState = Inr markedState
   \<and> updateTree exampleBrowser markedHtml markedState = Inr markedState
   \<and> updateTree exampleBrowser markedHtml selectedState = Inr markedState
   \<and> selectedOnTree markedState = []
   \<and> documentElement (parseFromString exampleBrowser markedHtml) = Some markedRoot
   \<and> fst (taggingPass markedRoot initialState) = markedTagged
   \<and> documentWrite exampleBrowser (outerHTML exampleBrowser markedTagged) = Document [markedTagged]
   \<and> selectedFlags markedState = [False, False, False, True]
   \<and> classFlags ''highlighted'' markedRoot = [False, False, False, True]
   \<and> hoveredFlags markedState = [False, False, False, True]
   \<and> updateTree exampleBrowser exampleHtml selectedState = Inr exampleState
   \<and> documentWrite exampleBrowser (outerHTML exampleBrowser exampleTagged) = Document [exampleTagged]
   \<and> classFlags ''highlighted'' exampleRoot = [False, False, False, False, False]
   \<and> classFlags ''hovered'' exampleRoot = [False, False, False, False, False]
   \<and> selectedOnPreview exampleState = [] \<and> hoveredOnPreview exampleState = []"
proof -
  have h: "updateTree exampleBrowser markedHtml initialState = Inr markedState" by code_simp
  have k: "updateTree exampleBrowser exampleHtml selectedState = Inr exampleState" by code_simp
  have m: "documentElement (parseFromString exampleBrowser markedHtml) = Some markedRoot"
    "fst (taggingPass markedRoot initialState) = markedTagged"
    "documentWrite exampleBrowser (outerHTML exampleBrowser markedTagged) = Document [markedTagged]"
    "selectedFlags markedState = [False, False, False, True]"
    "classFlags ''highlighted'' markedRoot = [False, False, False, True]"
    "hoveredFlags markedState = [False, False, False, True]"
    by code_simp+
  have x: "documentWrite exampleBrowser (outerHTML exampleBrowser exampleTagged) = Document [exampleTagged]"
    "classFlags ''highlighted'' exampleRoot = [False, False, False, False, False]"
    "classFlags ''hovered'' exampleRoot = [False, False, False, False, False]"
    "selectedOnPreview exampleState = []" "hoveredOnPreview exampleState = []"
    by code_simp+
  from update_idempotent [OF h, of selectedState] update_idempotent [OF k, of initialState] h k m x
  show ?thesis by simp
qed

text \<open>
  C5 as stated promises a preview without selected and hover marker after each run. The
  second worked input has the two class names in its markup: after the first run and
  after the second the paragraph carries both markers.
\<close>

theorem update_markers_counterexample:
  "updateTree exampleBrowser markedHtml initialState = Inr markedState
   \<and> updateTree exampleBrowser markedHtml markedState = Inr markedState
   \<and> selectedOnPreview markedState = [Some ''node-3'']
   \<and> hoveredOnPreview markedState = [Some ''node-3'']"
  by code_simp

section \<open>The worked example\<close>

text \<open>
  C6, as the code has it. For the input \<^verbatim>\<open><div>A<span>B</span></div>\<close>, parsed as
  \<^verbatim>\<open>text/html\<close>, the tagger starts at the \<^verbatim>\<open>html\<close> element: the identifiers are
  \<^verbatim>\<open>node-0\<close> for \<^verbatim>\<open>html\<close>, \<^verbatim>\<open>node-1\<close> for \<^verbatim>\<open>head\<close>, \<^verbatim>\<open>node-2\<close> for \<^verbatim>\<open>body\<close>,
  \<^verbatim>\<open>node-3\<close> for the \<^verbatim>\<open>div\<close> (trimmed text \<^verbatim>\<open>AB\<close>) and \<^verbatim>\<open>node-4\<close> for the
  \<^verbatim>\<open>span\<close> (trimmed text \<^verbatim>\<open>B\<close>). The extracted tree has \<^verbatim>\<open>html\<close> as its root with
  the children \<^verbatim>\<open>head\<close> and \<^verbatim>\<open>body\<close>; the \<^verbatim>\<open>div\<close> is the only child of \<^verbatim>\<open>body\<close>
  and has exactly one child, the \<^verbatim>\<open>span\<close>.
\<close>

theorem example_cycle:
  assumes "parseFromString P exampleHtml = exampleDocument"
  shows "\<exists>s'. updateTree P exampleHtml s = Inr s' \<and> nodeIdCounter s' = 5
           \<and> map datum (treeViz s') = levelOrder [exampleTree]
           \<and> map (\<lambda>d. (nodeId d, name d, treeText d, map name (children d)))
                 (levelOrder [exampleTree])
               = [(Some ''node-0'', ''html'', ''AB'', [''head'', ''body'']),
                  (Some ''node-1'', ''head'', [], []),
                  (Some ''node-2'', ''body'', ''AB'', [''div'']),
                  (Some ''node-3'', ''div'', ''AB'', [''span'']),
                  (Some ''node-4'', ''span'', ''B'', [])]
           \<and> frameDoc s' = documentWrite P (outerHTML P exampleTagged)"
proof -
  have de: "documentElement (parseFromString P exampleHtml) = Some exampleRoot"
    unfolding assms by code_simp
  have tg: "assignIdsToElements exampleRoot 0 = (exampleTagged, 5)"
    by code_simp
  have tr: "convertChildren [exampleTagged] = [exampleTree]"
    by code_simp
  have lv: "map (\<lambda>d. (nodeId d, name d, treeText d, map name (children d)))
                 (levelOrder [exampleTree])
               = [(Some ''node-0'', ''html'', ''AB'', [''head'', ''body'']),
                  (Some ''node-1'', ''head'', [], []),
                  (Some ''node-2'', ''body'', ''AB'', [''div'']),
                  (Some ''node-3'', ''div'', ''AB'', [''span'']),
                  (Some ''node-4'', ''span'', ''B'', [])]"
    by code_simp
  have "updateTree P exampleHtml s =
      Inr \<lparr>nodeIdCounter = 5, frameDoc = documentWrite P (outerHTML P exampleTagged),
           treeViz = map (\<lambda>d. \<lparr>datum = d, title = tooltip d, highlighted = False\<rparr>)
                       (levelOrder [exampleTree])\<rparr>"
    unfolding updateTree_result [OF de] tg fst_conv snd_conv tr by (rule refl)
  with lv show ?thesis by (simp add: comp_def)
qed

theorem example_cycle_witness:
  "parseFromString exampleBrowser exampleHtml = exampleDocument
   \<and> updateTree exampleBrowser exampleHtml initialState = Inr exampleState
   \<and> nodeIdCounter exampleState = 5
   \<and> map datum (treeViz exampleState) = levelOrder [exampleTree]"
proof -
  have h: "parseFromString exampleBrowser exampleHtml = exampleDocument"
    by (simp add: exampleBrowser_def)
  have u: "updateTree exampleBrowser exampleHtml initialState = Inr exampleState"
    by code_simp
  from example_cycle [OF h, of initialState] h u show ?thesis by auto
qed

text \<open>
  C6 as stated gives \<^verbatim>\<open>node-0\<close> to the \<^verbatim>\<open>div\<close> and makes it the root. In the update
  cycle \<^verbatim>\<open>node-0\<close> is the \<^verbatim>\<open>html\<close> element, which is the root of the tree, and the
  \<^verbatim>\<open>div\<close> is \<^verbatim>\<open>node-3\<close>.
\<close>

theorem example_cycle_counterexample:
  "updateTree exampleBrowser exampleHtml initialState = Inr exampleState
   \<and> drawnNodes exampleState
       = [(Some ''node-0'', ''html''), (Some ''node-1'', ''head''), (Some ''node-2'', ''body''),
          (Some ''node-3'', ''div''), (Some ''node-4'', ''span'')]
   \<and> datum (hd (treeViz exampleState)) = exampleTree
   \<and> name exampleTree = ''html''
   \<and> map name (children exampleTree) = [''head'', ''body'']"
  by code_simp

section \<open>Selecting an identifier that matches nothing\<close>

text \<open>
  C7, as the code has it. A selection call with a plain identifier that matches no node
  of the tree visualisation and no element of the preview raises no error and marks
  nothing, but it runs the two resets first: it ends in the state with every selected
  marker taken off both surfaces and every hover marker taken off the preview, and
  with the bound data and the identifiers as they were. Only when no marker was there
  before is the state unchanged.
\<close>

theorem select_unmatched_clears:
  assumes "plainId nid"
    and "Some nid \<notin> set (treeIdentifiers s)"
    and "Some nid \<notin> set (previewIdentifiers s)"
  shows "highlightTreeNode nid s = Inr (clearedState s)
         \<and> selectedOnTree (clearedState s) = []
         \<and> selectedOnPreview (clearedState s) = []
         \<and> hoveredOnPreview (clearedState s) = []
         \<and> map datum (treeViz (clearedState s)) = map datum (treeViz s)
         \<and> previewIdentifiers (clearedState s) = previewIdentifiers s
         \<and> (selectedOnTree s = [] \<and> selectedOnPreview s = [] \<and> hoveredOnPreview s = []
              \<longrightarrow> clearedState s = s)"
proof -
  let ?s1 = "resetTreeHighlights s"
  from assms(2) have "Some nid \<notin> set (map (\<lambda>v. nodeId (datum v)) (treeViz ?s1))"
    by (simp add: treeIdentifiers_def resetTreeHighlights_def comp_def)
  then have "map (\<lambda>v. if nodeId (datum v) = Some nid then v\<lparr>highlighted := True\<rparr> else v)
      (treeViz ?s1) = treeViz ?s1"
    by (rule mark_none)
  then have s2: "?s1\<lparr>treeViz :=
      map (\<lambda>v. if nodeId (datum v) = Some nid then v\<lparr>highlighted := True\<rparr> else v)
        (treeViz ?s1)\<rparr> = ?s1"
    by simp
  from assms(3) have "Some nid \<notin> fst ` set (previewMarks (clearedState s))"
    by (simp add: previewIdentifiers_def cleared_marks clearMarks_fst_image)
  then have "firstMatchList nid (childNodes (frameDoc (clearedState s))) = None"
    by (simp add: firstMatch_None(2) previewMarks_def)
  with assms(1) have "highlightTreeNode nid s = Inr (clearedState s)"
    unfolding highlightTreeNode_def Let_def s2 querySelector_def
    by (simp add: clearedState_def)
  then show ?thesis
    using cleared_same [of s] clearMarks_fst [of "previewMarks s"]
    by (simp add: cleared_tree cleared_selected cleared_hovered cleared_data cleared_marks
        previewIdentifiers_def del: map_map)
qed

theorem select_unmatched_clears_witness:
  "plainId ''node-9''
   \<and> Some ''node-9'' \<notin> set (treeIdentifiers selectedState)
   \<and> Some ''node-9'' \<notin> set (previewIdentifiers selectedState)
   \<and> highlightTreeNode ''node-9'' selectedState = Inr exampleState
   \<and> selectedOnTree exampleState = [] \<and> selectedOnPreview exampleState = []
   \<and> hoveredOnPreview exampleState = []
   \<and> highlightTreeNode ''node-9'' exampleState = Inr exampleState"
proof -
  have h1: "plainId ''node-9''" by code_simp
  have h2: "Some ''node-9'' \<notin> set (treeIdentifiers selectedState)"
    by code_simp
  have h3: "Some ''node-9'' \<notin> set (previewIdentifiers selectedState)"
    by code_simp
  have k2: "Some ''node-9'' \<notin> set (treeIdentifiers exampleState)"
    by code_simp
  have k3: "Some ''node-9'' \<notin> set (previewIdentifiers exampleState)"
    by code_simp
  have c: "clearedState selectedState = exampleState"
    by code_simp
  have e: "selectedOnTree exampleState = []" "selectedOnPreview exampleState = []"
    "hoveredOnPreview exampleState = []"
    by code_simp+
  from select_unmatched_clears [OF h1 h2 h3] select_unmatched_clears [OF h1 k2 k3] h1 h2 h3 c e
  show ?thesis by simp
qed

text \<open>
  C7 as stated makes the call a no-op. With the \<^verbatim>\<open>div\<close> of the worked example selected
  on both surfaces, a call with \<^verbatim>\<open>node-9\<close>, which matches nothing, takes the selection
  away on both.
\<close>

theorem select_unmatched_counterexample:
  "plainId ''node-9''
   \<and> Some ''node-9'' \<notin> set (treeIdentifiers selectedState)
   \<and> Some ''node-9'' \<notin> set (previewIdentifiers selectedState)
   \<and> selectedOnTree selectedState = [Some ''node-3'']
   \<and> selectedOnPreview selectedState = [Some ''node-3'']
   \<and> highlightTreeNode ''node-9'' selectedState = Inr exampleState
   \<and> exampleState \<noteq> selectedState
   \<and> selectedOnTree exampleState = []
   \<and> selectedOnPreview exampleState = []"
  by code_simp

section \<open>Hover and its release\<close>

text \<open>
  C8, as the code has it. For a plain identifier that is present on the preview:
  \<^verbatim>\<open>highlightHTMLSide\<close> changes neither which elements of the preview carry the
  selected marker nor the tree visualisation, and after \<^verbatim>\<open>unhighlightHTMLSide\<close> with
  the same identifier the preview is what it was before the two calls, but for the
  hover marker of the element with that identifier, which is off. When no element
  carried the hover marker before the two calls, exactly that element carries it between
  them and no hover marker is left anywhere after them, with every class list as it was.
\<close>

theorem hover_then_clear:
  assumes "plainId nid"
    and "Some nid \<in> set (previewIdentifiers s)"
  shows "\<exists>s1 s2. highlightHTMLSide nid s = Inr s1 \<and> unhighlightHTMLSide nid s1 = Inr s2
           \<and> selectedFlags s1 = selectedFlags s
           \<and> selectedOnPreview s1 = selectedOnPreview s
           \<and> selectedOnTree s1 = selectedOnTree s
           \<and> treeViz s2 = treeViz s
           \<and> previewMarks s2 = flatFirst nid (classListRemove ''hovered'') (previewMarks s)
           \<and> (hoveredOnPreview s = [] \<longrightarrow>
                 hoveredOnPreview s1 = [Some nid] \<and> hoveredOnPreview s2 = []
                 \<and> previewMarks s2 = previewMarks s)"
proof -
  let ?add = "classListAdd ''hovered''" and ?rem = "classListRemove ''hovered''"
  from hover_marks [OF assms(1), of s] obtain s1 where
    s1: "highlightHTMLSide nid s = Inr s1"
      "previewMarks s1 = flatFirst nid ?add (previewMarks s)" "treeViz s1 = treeViz s"
    by blast
  from unhover_marks [OF assms(1), of s1] obtain s2 where
    s2: "unhighlightHTMLSide nid s1 = Inr s2"
      "previewMarks s2 = flatFirst nid ?rem (previewMarks s1)" "treeViz s2 = treeViz s1"
    by blast
  from assms(2) have pres: "Some nid \<in> fst ` set (previewMarks s)"
    by (simp add: previewIdentifiers_def)
  have "?rem \<circ> ?add = ?rem"
    by (rule ext) (simp add: classList_remove_add)
  then have after: "previewMarks s2 = flatFirst nid ?rem (previewMarks s)"
    unfolding s2(2) s1(2) flatFirst_compose by simp
  have keep: "(''highlighted'' \<in> set (?add cl)) = (''highlighted'' \<in> set cl)" for cl
    by (rule classListAdd_other) simp
  have f1: "selectedFlags s1 = selectedFlags s"
    unfolding selectedFlags_def s1(2) by (rule flatFirst_keeps) (rule keep)
  have f2: "selectedOnPreview s1 = selectedOnPreview s"
    unfolding selectedOnPreview_def s1(2) by (rule flatFirst_keeps_filter) (rule keep)
  have f3: "selectedOnTree s1 = selectedOnTree s"
    by (simp add: selectedOnTree_def s1(3))
  have clean: "hoveredOnPreview s1 = [Some nid] \<and> hoveredOnPreview s2 = []
      \<and> previewMarks s2 = previewMarks s" if none: "hoveredOnPreview s = []"
  proof -
    from none have no: "\<forall>m \<in> set (previewMarks s). ''hovered'' \<notin> set (snd m)"
      by (simp add: hoveredOnPreview_def filter_empty_conv)
    have h1: "hoveredOnPreview s1 = [Some nid]"
      using flatFirst_add_marks [OF no, of nid] pres by (simp add: hoveredOnPreview_def s1(2))
    have same: "previewMarks s2 = previewMarks s"
      unfolding after
      by (rule flatFirst_unchanged) (use no in \<open>simp add: classListRemove_absent\<close>)
    have h2: "hoveredOnPreview s2 = []"
      using none by (simp add: hoveredOnPreview_def same)
    from h1 h2 same show ?thesis by simp
  qed
  from s1(1) s2(1) f1 f2 f3 after s2(3) s1(3) clean show ?thesis by simp
qed

theorem hover_then_clear_witness:
  "plainId ''node-4''
   \<and> Some ''node-4'' \<in> set (previewIdentifiers selectedState)
   \<and> hoveredOnPreview selectedState = []
   \<and> highlightHTMLSide ''node-4'' selectedState = Inr hoveredState
   \<and> unhighlightHTMLSide ''node-4'' hoveredState = Inr selectedState
   \<and> hoveredOnPreview hoveredState = [Some ''node-4'']
   \<and> selectedOnPreview hoveredState = [Some ''node-3'']"
proof -
  have h1: "plainId ''node-4''" by code_simp
  have h2: "Some ''node-4'' \<in> set (previewIdentifiers selectedState)" by code_simp
  have h3: "hoveredOnPreview selectedState = []" by code_simp
  have a: "highlightHTMLSide ''node-4'' selectedState = Inr hoveredState" by code_simp
  have b: "unhighlightHTMLSide ''node-4'' hoveredState = Inr selectedState" by code_simp
  have c: "selectedOnPreview selectedState = [Some ''node-3'']" by code_simp
  from hover_then_clear [OF h1 h2] h1 h2 h3 a b c show ?thesis by auto
qed

text \<open>
  C8 as stated leaves no hover marker anywhere for every identifier on the preview. After
  an update with the second worked input the paragraph has the class \<^verbatim>\<open>hovered\<close> from
  its markup; hovering the body and releasing it touches the body alone, and the
  paragraph keeps its hover marker.
\<close>

theorem hover_release_counterexample:
  "updateTree exampleBrowser markedHtml initialState = Inr markedState
   \<and> plainId ''node-2''
   \<and> Some ''node-2'' \<in> set (previewIdentifiers markedState)
   \<and> highlightHTMLSide ''node-2'' markedState = Inr markedHoverState
   \<and> hoveredOnPreview markedHoverState = [Some ''node-2'', Some ''node-3'']
   \<and> unhighlightHTMLSide ''node-2'' markedHoverState = Inr markedState
   \<and> hoveredOnPreview markedState = [Some ''node-3'']"
  by code_simp

section \<open>An element without identifier\<close>

text \<open>
  C9. For an element that has no \<^verbatim>\<open>data-node-id\<close> attribute \<^verbatim>\<open>convertToTree\<close> returns
  a tree node all the same: its identifier is \<^verbatim>\<open>null\<close>, and the name, the trimmed text
  and the children are extracted as for any other element.
\<close>

theorem extraction_without_identifier:
  assumes "nodeType e = 1" and "identifierOf e = None"
  shows "\<exists>t. convertToTree e = Some t \<and> nodeId t = None
           \<and> name t = toLowerCase (tagName e)
           \<and> treeText t = trim (textContent e)
           \<and> children t = convertChildren (childNodes e)"
  using assms by (cases e) (simp_all add: identifierOf_def)

theorem extraction_without_identifier_witness:
  "nodeType exampleRoot = 1 \<and> identifierOf exampleRoot = None
   \<and> convertToTree exampleRoot
       = Some (TreeNode None ''html'' ''AB''
           [TreeNode None ''head'' [] [],
            TreeNode None ''body'' ''AB''
              [TreeNode None ''div'' ''AB'' [TreeNode None ''span'' ''B'' []]]])"
proof -
  have h1: "nodeType exampleRoot = 1" by (simp add: exampleRoot_def)
  have h2: "identifierOf exampleRoot = None" by code_simp
  have c: "convertToTree exampleRoot
       = Some (TreeNode None ''html'' ''AB''
           [TreeNode None ''head'' [] [],
            TreeNode None ''body'' ''AB''
              [TreeNode None ''div'' ''AB'' [TreeNode None ''span'' ''B'' []]]])"
    by code_simp
  from extraction_without_identifier [OF h1 h2] h1 h2 c show ?thesis by simp
qed

section \<open>Numbers grow from parent to child and from left to right\<close>

text \<open>
  C10. In the tree extracted from a freshly tagged element, every node has a number,
  the number of a node is smaller than the number of each of its children, and the
  numbers of the children of a node grow strictly from the first child to the last.
\<close>

theorem extracted_numbers_increase:
  assumes "nodeType e = 1"
  shows "\<exists>t. convertToTree (fst (assignIdsToElements e c)) = Some t \<and> increasing t"
  using tagged_increasing(1) [of e c] assms by auto

theorem extracted_numbers_increase_witness:
  "nodeType exampleRoot = 1
   \<and> convertToTree (fst (assignIdsToElements exampleRoot 0)) = Some exampleTree
   \<and> increasing exampleTree"
proof -
  have h: "nodeType exampleRoot = 1" by (simp add: exampleRoot_def)
  have c: "convertToTree (fst (assignIdsToElements exampleRoot 0)) = Some exampleTree"
    by code_simp
  from extracted_numbers_increase [OF h, of 0] h c show ?thesis by simp
qed

end
